theory Spec2Isabelle
  imports
    Complex_Main
    "HOL-Library.Char_ord"
    "HOL-Library.List_Lexorder"
    "HOL-Library.Log_Nat"
    "HOL-Library.Multiset"
begin

section \<open>Location history matching: the model\<close>

text \<open>
  A shallow embedding of \<^verbatim>\<open>add_photo_locations_from_google_history.py\<close>: the class
  \<^verbatim>\<open>LocationHistory\<close> (loading, sorting, the timestamp array, the dictionary by
  timestamp, the nearest-timestamp query) and the match decision at the head of
  \<^verbatim>\<open>add_location_to_photo\<close>. Reading the file, the photo library and the metadata
  writers are outside the model: the model starts at the decoded JSON and at the photo's
  date in milliseconds, and it stops where \<^verbatim>\<open>add_location_to_photo\<close> has decided.
\<close>

subsection \<open>Python values and exceptions\<close>

text \<open>
  The value under the key \<^verbatim>\<open>"timestampMs"\<close> is a JSON string (the format of Google
  Takeout, which is why the source converts it with \<^verbatim>\<open>int(...)\<close>) or a JSON integer.
  Strings are sequences of code points below 256. Other JSON values (null, floats,
  booleans, arrays, objects) are not part of the model.
\<close>

datatype json = JStr string | JInt int

text \<open>
  Exceptions are values. \<open>ValueError\<close> carries its message, which tells the three
  places apart that raise it: line 79 of the source, \<^verbatim>\<open>int()\<close> and \<^verbatim>\<open>min()\<close>.
  \<open>DatetimeRangeError\<close> stands for what \<^verbatim>\<open>datetime.fromtimestamp(msec / 1000, tz)\<close>
  raises for an instant outside the years 1 to 9999: a \<^verbatim>\<open>ValueError\<close> ("year ... is out
  of range"), an \<^verbatim>\<open>OSError\<close> or an \<^verbatim>\<open>OverflowError\<close>, depending on the magnitude.
\<close>

datatype error =
    KeyError
  | TypeError
  | ValueError string
  | OverflowError
  | ZeroDivisionError
  | DatetimeRangeError

abbreviation history_not_found :: string where
  "history_not_found \<equiv> ''Location history not found in JSON file''"

abbreviation invalid_literal :: string where
  "invalid_literal \<equiv> ''invalid literal for int() with base 10''"

abbreviation min_empty :: string where
  "min_empty \<equiv> ''min() arg is an empty sequence''"

subsection \<open>\<^verbatim>\<open>int()\<close> on a string\<close>

text \<open>
  \<^verbatim>\<open>int(s)\<close> in base 10: surrounding whitespace is dropped, one sign is allowed, then
  come decimal digits, where a single underscore may stand between two digits. Anything
  else raises \<^verbatim>\<open>ValueError\<close>. The limit on the number of digits of recent interpreters
  is not modelled.
\<close>

definition py_isspace :: "char \<Rightarrow> bool" where
  "py_isspace c \<longleftrightarrow> (of_char c :: nat) \<in> {9, 10, 11, 12, 13, 32, 133, 160}"

definition digit_val :: "char \<Rightarrow> nat option" where
  "digit_val c =
     (let n = (of_char c :: nat) in if 48 \<le> n \<and> n \<le> 57 then Some (n - 48) else None)"

fun digits_acc :: "nat \<Rightarrow> string \<Rightarrow> nat option" where
  "digits_acc acc [] = Some acc"
| "digits_acc acc [c] =
     (case digit_val c of None \<Rightarrow> None | Some v \<Rightarrow> Some (10 * acc + v))"
| "digits_acc acc (c # d # ds) =
     (if c = CHR ''_''
      then (case digit_val d of None \<Rightarrow> None | Some v \<Rightarrow> digits_acc (10 * acc + v) ds)
      else (case digit_val c of None \<Rightarrow> None | Some v \<Rightarrow> digits_acc (10 * acc + v) (d # ds)))"

definition py_strip :: "string \<Rightarrow> string" where
  "py_strip s = rev (dropWhile py_isspace (rev (dropWhile py_isspace s)))"

definition unsigned_literal :: "string \<Rightarrow> nat option" where
  "unsigned_literal s =
     (case s of
        [] \<Rightarrow> None
      | d # ds \<Rightarrow> (case digit_val d of None \<Rightarrow> None | Some v \<Rightarrow> digits_acc v ds))"

definition py_int_str :: "string \<Rightarrow> error + int" where
  "py_int_str s =
     (case py_strip s of
        [] \<Rightarrow> Inl (ValueError invalid_literal)
      | c # cs \<Rightarrow>
          (case (if c = CHR ''-'' \<or> c = CHR ''+'' then unsigned_literal cs
                 else unsigned_literal (c # cs)) of
             None \<Rightarrow> Inl (ValueError invalid_literal)
           | Some n \<Rightarrow> Inr (if c = CHR ''-'' then - int n else int n)))"

fun py_int :: "json \<Rightarrow> error + int" where
  "py_int (JInt n) = Inr n"
| "py_int (JStr s) = py_int_str s"

subsection \<open>Floats\<close>

text \<open>
  A float is modelled by the rational number it denotes. \<open>round_binary64\<close> rounds a
  rational to the nearest IEEE 754 binary64 number, ties to even, as the division of two
  Python integers does. \<open>binary64_exponent x\<close> is the exponent \<open>e\<close> with
  \<open>2 powi e \<le> x < 2 powi (e + 1)\<close> of a positive \<open>x\<close>.
\<close>

definition round_half_even :: "rat \<Rightarrow> int" where
  "round_half_even x =
     (let f = \<lfloor>x\<rfloor>; r = x - of_int f
      in if r < 1 / 2 then f else if 1 / 2 < r then f + 1 else if even f then f else f + 1)"

definition binary64_exponent :: "rat \<Rightarrow> int" where
  "binary64_exponent x =
     (let e0 = bitlen (fst (quotient_of x)) - bitlen (snd (quotient_of x))
      in if 2 powi e0 \<le> x then e0 else e0 - 1)"

definition round_binary64 :: "rat \<Rightarrow> rat" where
  "round_binary64 x =
     (if x = 0 then 0
      else let ulp = 2 powi (max (binary64_exponent \<bar>x\<bar>) (- 1022) - 52)
           in sgn x * (of_int (round_half_even (\<bar>x\<bar> / ulp)) * ulp))"

text \<open>\<^verbatim>\<open>a / b\<close> on two integers: the correctly rounded quotient.\<close>

definition py_truediv :: "int \<Rightarrow> int \<Rightarrow> error + rat" where
  "py_truediv a b =
     (if b = 0 then Inl ZeroDivisionError
      else let y = round_binary64 (of_int a / of_int b)
           in if 2 ^ 1024 \<le> \<bar>y\<bar> then Inl OverflowError else Inr y)"

text \<open>\<^verbatim>\<open>int(x)\<close> on a float: truncation toward zero.\<close>

definition py_int_of_float :: "rat \<Rightarrow> int" where
  "py_int_of_float x = (if 0 \<le> x then \<lfloor>x\<rfloor> else \<lceil>x\<rceil>)"

text \<open>
  The integer operand of an operation with a float is converted to a float first: to the
  nearest binary64 number, with \<^verbatim>\<open>OverflowError\<close> ("int too large to convert to
  float") when the integer is beyond the largest one.
\<close>

definition py_float_of_int :: "int \<Rightarrow> error + rat" where
  "py_float_of_int n =
     (let y = round_binary64 (of_int n)
      in if 2 ^ 1024 \<le> \<bar>y\<bar> then Inl OverflowError else Inr y)"

text \<open>
  \<^verbatim>\<open>v / 1e7\<close> on a JSON value. An integer is converted and the two floats are divided,
  which rounds once more and cannot overflow; a string has no division by a float, and
  \<^verbatim>\<open>TypeError\<close> is raised.
\<close>

fun py_div_1e7 :: "json \<Rightarrow> error + rat" where
  "py_div_1e7 (JInt n) =
     (case py_float_of_int n of
        Inl e \<Rightarrow> Inl e
      | Inr y \<Rightarrow> Inr (round_binary64 (y / 10000000)))"
| "py_div_1e7 (JStr s) = Inl TypeError"

subsection \<open>Library functions: \<^verbatim>\<open>sorted\<close>, \<^verbatim>\<open>bisect_left\<close>, slices, \<^verbatim>\<open>min\<close>\<close>

text \<open>
  \<^verbatim>\<open>sorted(xs, key=...)\<close> is stable. Two strings compare by code points,
  lexicographically; two integers compare as numbers; a string and an integer do not
  compare, and sorting a list that holds both raises \<^verbatim>\<open>TypeError\<close>.
\<close>

fun is_JInt :: "json \<Rightarrow> bool" where
  "is_JInt (JInt n) = True"
| "is_JInt (JStr s) = False"

fun the_JInt :: "json \<Rightarrow> int" where
  "the_JInt (JInt n) = n"
| "the_JInt (JStr s) = 0"

fun the_JStr :: "json \<Rightarrow> string" where
  "the_JStr (JStr s) = s"
| "the_JStr (JInt n) = []"

definition py_sorted :: "('a \<Rightarrow> json) \<Rightarrow> 'a list \<Rightarrow> error + 'a list" where
  "py_sorted key xs =
     (if list_all (\<lambda>x. is_JInt (key x)) xs then Inr (sort_key (\<lambda>x. the_JInt (key x)) xs)
      else if list_all (\<lambda>x. \<not> is_JInt (key x)) xs
      then Inr (sort_key (\<lambda>x. the_JStr (key x)) xs)
      else Inl TypeError)"

text \<open>
  \<^verbatim>\<open>bisect_left(a, x)\<close>, the loop of the standard library:
  \<^verbatim>\<open>while lo < hi: mid = (lo + hi) // 2; if a[mid] < x: lo = mid + 1 else: hi = mid\<close>.
\<close>

function bisect_left_loop :: "int list \<Rightarrow> int \<Rightarrow> nat \<Rightarrow> nat \<Rightarrow> nat" where
  "bisect_left_loop a x lo hi =
     (if lo < hi
      then (if a ! ((lo + hi) div 2) < x
            then bisect_left_loop a x ((lo + hi) div 2 + 1) hi
            else bisect_left_loop a x lo ((lo + hi) div 2))
      else lo)"
  by pat_completeness auto
termination
  by (relation "measure (\<lambda>(a, x, lo, hi). hi - lo)") auto

declare bisect_left_loop.simps [simp del]

definition bisect_left :: "int list \<Rightarrow> int \<Rightarrow> nat" where
  "bisect_left a x = bisect_left_loop a x 0 (length a)"

text \<open>\<^verbatim>\<open>xs[lo:hi]\<close> for two indices that are not negative: the bounds are clipped.\<close>

definition py_slice :: "'a list \<Rightarrow> nat \<Rightarrow> nat \<Rightarrow> 'a list" where
  "py_slice xs lo hi = take (hi - lo) (drop lo xs)"

text \<open>
  \<^verbatim>\<open>min(xs, key=...)\<close> keeps the first of the elements whose key is least, and raises
  \<^verbatim>\<open>ValueError\<close> on an empty sequence.
\<close>

fun py_min :: "('a \<Rightarrow> int) \<Rightarrow> 'a list \<Rightarrow> error + 'a" where
  "py_min key [] = Inl (ValueError min_empty)"
| "py_min key (x # xs) =
     Inr (foldl (\<lambda>best y. if key y < key best then y else best) x xs)"

subsection \<open>Records of the location history\<close>

text \<open>
  A raw record is a JSON object; the model keeps the three keys the source reads, each
  of which may be absent. \<open>latitudeE7\<close> and \<open>longitudeE7\<close> are integers (degrees
  times \<open>10\<^sup>7\<close>) in the files of Google Takeout; as for the timestamp, the model has
  a JSON string or a JSON integer there. Loading adds three keys to the record:
  \<open>datetime\<close>, \<open>latitude\<close> and \<open>longitude\<close>, the last two with the value
  \<^verbatim>\<open>None\<close> when the record has no coordinate. The \<^verbatim>\<open>datetime\<close> object is
  represented by the milliseconds it was made from.
\<close>

record raw_location =
  timestampMs :: "json option"
  latitudeE7 :: "json option"
  longitudeE7 :: "json option"

record location = raw_location +
  datetime :: int
  latitude :: "rat option"
  longitude :: "rat option"

text \<open>\<^verbatim>\<open>x["timestampMs"]\<close>: a missing key raises \<^verbatim>\<open>KeyError\<close>.\<close>

definition get_timestampMs :: "'a raw_location_scheme \<Rightarrow> error + json" where
  "get_timestampMs x = (case timestampMs x of None \<Rightarrow> Inl KeyError | Some v \<Rightarrow> Inr v)"

text \<open>\<^verbatim>\<open>int(x["timestampMs"])\<close>.\<close>

definition int_timestampMs :: "'a raw_location_scheme \<Rightarrow> error + int" where
  "int_timestampMs x = (case get_timestampMs x of Inl e \<Rightarrow> Inl e | Inr v \<Rightarrow> py_int v)"

subsection \<open>\<^verbatim>\<open>msec_to_datetime\<close>\<close>

text \<open>
  \<^verbatim>\<open>datetime.fromtimestamp(msec / 1000, tz=timezone.utc)\<close> returns a value for the
  instants of the years 1 to 9999, that is from \<open>-62135596800000\<close> to
  \<open>253402300799999\<close> milliseconds, and raises outside of them.
\<close>

definition datetime_min_msec :: int where
  "datetime_min_msec = - 62135596800000"

definition datetime_max_msec :: int where
  "datetime_max_msec = 253402300799999"

definition msec_to_datetime :: "int \<Rightarrow> error + int" where
  "msec_to_datetime msec =
     (if datetime_min_msec \<le> msec \<and> msec \<le> datetime_max_msec then Inr msec
      else Inl DatetimeRangeError)"

subsection \<open>The class \<^verbatim>\<open>LocationHistory\<close>\<close>

text \<open>
  \<^verbatim>\<open>location["latitudeE7"] / 1e7 if "latitudeE7" in location else None\<close>, and the same
  expression for the longitude.
\<close>

definition coordinate :: "json option \<Rightarrow> error + rat option" where
  "coordinate c =
     (case c of
        None \<Rightarrow> Inr None
      | Some v \<Rightarrow> (case py_div_1e7 v of Inl e \<Rightarrow> Inl e | Inr d \<Rightarrow> Inr (Some d)))"

text \<open>
  The body of the loop of \<^verbatim>\<open>_load_location_history\<close>: the three assignments in their
  order, each of which may raise.
\<close>

definition load_location :: "raw_location \<Rightarrow> error + location" where
  "load_location r =
     (case int_timestampMs r of
        Inl e \<Rightarrow> Inl e
      | Inr msec \<Rightarrow>
          (case msec_to_datetime msec of
             Inl e \<Rightarrow> Inl e
           | Inr dt \<Rightarrow>
               (case coordinate (latitudeE7 r) of
                  Inl e \<Rightarrow> Inl e
                | Inr la \<Rightarrow>
                    (case coordinate (longitudeE7 r) of
                       Inl e \<Rightarrow> Inl e
                     | Inr lo \<Rightarrow>
                         Inr (raw_location.extend r
                               \<lparr>datetime = dt, latitude = la, longitude = lo\<rparr>)))))"

fun load_locations :: "raw_location list \<Rightarrow> error + location list" where
  "load_locations [] = Inr []"
| "load_locations (r # rs) =
     (case load_location r of
        Inl e \<Rightarrow> Inl e
      | Inr x \<Rightarrow> (case load_locations rs of Inl e \<Rightarrow> Inl e | Inr xs \<Rightarrow> Inr (x # xs)))"

text \<open>
  The \<^verbatim>\<open>try\<close> block: the key \<^verbatim>\<open>"locations"\<close> of the decoded file (\<open>None\<close> when the
  file has no such key), the loop, and the sort whose key is the value of
  \<^verbatim>\<open>"timestampMs"\<close> as it is in the file.
\<close>

definition load_try :: "raw_location list option \<Rightarrow> error + location list" where
  "load_try location_data =
     (case location_data of
        None \<Rightarrow> Inl KeyError
      | Some locations \<Rightarrow>
          (case load_locations locations of
             Inl e \<Rightarrow> Inl e
           | Inr xs \<Rightarrow>
               (if list_all (\<lambda>x. timestampMs x \<noteq> None) xs
                then py_sorted (\<lambda>x. the (timestampMs x)) xs
                else Inl KeyError)))"

text \<open>\<^verbatim>\<open>except KeyError: raise ValueError("Location history not found in JSON file")\<close>.\<close>

definition load_location_history :: "raw_location list option \<Rightarrow> error + location list" where
  "load_location_history location_data =
     (case load_try location_data of
        Inl KeyError \<Rightarrow> Inl (ValueError history_not_found)
      | r \<Rightarrow> r)"

fun extract_timestamps_from_history :: "location list \<Rightarrow> error + int list" where
  "extract_timestamps_from_history [] = Inr []"
| "extract_timestamps_from_history (x # xs) =
     (case int_timestampMs x of
        Inl e \<Rightarrow> Inl e
      | Inr t \<Rightarrow>
          (case extract_timestamps_from_history xs of
             Inl e \<Rightarrow> Inl e
           | Inr ts \<Rightarrow> Inr (t # ts)))"

text \<open>The dict comprehension: a later record replaces an earlier one under the same key.\<close>

fun dict_by_timestamp ::
  "(int \<rightharpoonup> location) \<Rightarrow> location list \<Rightarrow> error + (int \<rightharpoonup> location)" where
  "dict_by_timestamp d [] = Inr d"
| "dict_by_timestamp d (x # xs) =
     (case int_timestampMs x of
        Inl e \<Rightarrow> Inl e
      | Inr t \<Rightarrow> dict_by_timestamp (d(t \<mapsto> x)) xs)"

definition location_history_to_dict_by_timestamp ::
  "location list \<Rightarrow> error + (int \<rightharpoonup> location)" where
  "location_history_to_dict_by_timestamp xs = dict_by_timestamp Map.empty xs"

record LocationHistory =
  location_history :: "location list"
  timestamps :: "int list"
  location_dict :: "int \<rightharpoonup> location"

text \<open>\<^verbatim>\<open>__init__\<close>, from the decoded content of the file.\<close>

definition LocationHistory_init :: "raw_location list option \<Rightarrow> error + LocationHistory" where
  "LocationHistory_init location_data =
     (case load_location_history location_data of
        Inl e \<Rightarrow> Inl e
      | Inr lh \<Rightarrow>
          (case extract_timestamps_from_history lh of
             Inl e \<Rightarrow> Inl e
           | Inr ts \<Rightarrow>
               (case location_history_to_dict_by_timestamp lh of
                  Inl e \<Rightarrow> Inl e
                | Inr d \<Rightarrow>
                    Inr \<lparr>location_history = lh, timestamps = ts, location_dict = d\<rparr>)))"

text \<open>\<^verbatim>\<open>__len__\<close>.\<close>

definition LocationHistory_len :: "LocationHistory \<Rightarrow> nat" where
  "LocationHistory_len self = length (location_history self)"

definition nearest_location_from_timestamp :: "LocationHistory \<Rightarrow> int \<Rightarrow> error + int" where
  "nearest_location_from_timestamp self timestamp =
     (let i = bisect_left (timestamps self) timestamp
      in py_min (\<lambda>t. \<bar>timestamp - t\<bar>)
           (py_slice (timestamps self) (nat (max 0 (int i - 1))) (i + 2)))"

text \<open>
  \<^verbatim>\<open>nearest_location\<close>. The argument is \<^verbatim>\<open>msec\<close>, the date of the photo in
  milliseconds, which the source computes from a \<^verbatim>\<open>datetime\<close> in its first line.
\<close>

definition nearest_location :: "LocationHistory \<Rightarrow> int \<Rightarrow> error + location \<times> rat" where
  "nearest_location self msec =
     (case nearest_location_from_timestamp self msec of
        Inl e \<Rightarrow> Inl e
      | Inr nearest \<Rightarrow>
          (case location_dict self nearest of
             None \<Rightarrow> Inl KeyError
           | Some nearest_record \<Rightarrow>
               (case int_timestampMs nearest_record of
                  Inl e \<Rightarrow> Inl e
                | Inr t \<Rightarrow>
                    (case py_truediv \<bar>t - msec\<bar> 1000 of
                       Inl e \<Rightarrow> Inl e
                     | Inr d \<Rightarrow> Inr (nearest_record, d)))))"

text \<open>
  The head of \<^verbatim>\<open>add_location_to_photo\<close>, up to the decision. \<open>None\<close> is the
  \<^verbatim>\<open>return 0\<close> of a photo without a match; \<open>Some (nearest, delta)\<close>, with the delta in whole seconds,
  is the match that the rest of the function reports and writes to the photo.
\<close>

definition add_location_to_photo ::
  "LocationHistory \<Rightarrow> int \<Rightarrow> int \<Rightarrow> error + (location \<times> int) option" where
  "add_location_to_photo history msec delta =
     (case nearest_location history msec of
        Inl e \<Rightarrow> Inl e
      | Inr (nearest, nearest_delta) \<Rightarrow>
          (if py_int_of_float nearest_delta \<ge> delta then Inr None
           else Inr (Some (nearest, py_int_of_float nearest_delta))))"

subsection \<open>Notions used in the statements\<close>

text \<open>
  \<open>usable x\<close>: the body of the loading loop goes through for the record, which is to say
  that it has a \<^verbatim>\<open>"timestampMs"\<close> that converts to an integer in the range of
  \<^verbatim>\<open>datetime\<close>, and that its coordinates, where it has them, can be divided by
  \<^verbatim>\<open>1e7\<close>; \<open>msec_of x\<close> is that integer. \<open>loaded r\<close> is the record the loop
  makes of a usable \<open>r\<close>, and \<open>dict_of d xs\<close> is the dictionary after the records
  \<open>xs\<close> have been entered into \<open>d\<close> in their order.
\<close>

definition msec_of :: "'a raw_location_scheme \<Rightarrow> int" where
  "msec_of x = (case int_timestampMs x of Inl e \<Rightarrow> 0 | Inr t \<Rightarrow> t)"

definition usable :: "'a raw_location_scheme \<Rightarrow> bool" where
  "usable x =
     (case int_timestampMs x of
        Inl e \<Rightarrow> False
      | Inr t \<Rightarrow>
          datetime_min_msec \<le> t \<and> t \<le> datetime_max_msec \<and>
          \<not> isl (coordinate (latitudeE7 x)) \<and> \<not> isl (coordinate (longitudeE7 x)))"

definition loaded :: "raw_location \<Rightarrow> location" where
  "loaded r =
     raw_location.extend r
       \<lparr>datetime = msec_of r,
        latitude = (case coordinate (latitudeE7 r) of Inl e \<Rightarrow> None | Inr la \<Rightarrow> la),
        longitude = (case coordinate (longitudeE7 r) of Inl e \<Rightarrow> None | Inr lo \<Rightarrow> lo)\<rparr>"

definition dict_of :: "(int \<rightharpoonup> location) \<Rightarrow> location list \<Rightarrow> (int \<rightharpoonup> location)" where
  "dict_of d xs = foldl (\<lambda>m x. m(msec_of x \<mapsto> x)) d xs"

text \<open>
  \<open>index_of lh\<close> is the \<^verbatim>\<open>LocationHistory\<close> whose sorted list of records is \<open>lh\<close>:
  its timestamps and its dictionary as \<^verbatim>\<open>__init__\<close> makes them from that list.
  \<open>photo_date_msec msec\<close>: \<open>msec\<close> is the instant of a \<^verbatim>\<open>datetime\<close>, as the date of a
  photo is, so that it lies in the years 1 to 9999, up to one day for the offset of the
  time zone.
\<close>

definition index_of :: "location list \<Rightarrow> LocationHistory" where
  "index_of lh =
     \<lparr>location_history = lh, timestamps = map msec_of lh, location_dict = dict_of Map.empty lh\<rparr>"

definition photo_date_msec :: "int \<Rightarrow> bool" where
  "photo_date_msec msec \<longleftrightarrow>
     datetime_min_msec - 86400000 \<le> msec \<and> msec \<le> datetime_max_msec + 86400000"

subsection \<open>Example histories\<close>

text \<open>
  Records in the format of Google Takeout, where the value of \<^verbatim>\<open>"timestampMs"\<close> is a
  string. The three records of \<open>history_scenario\<close> have timestamps of seven digits. The
  records \<open>loc_2001_a\<close> to \<open>loc_2001_c\<close> lie around \<open>10\<^sup>1\<^sup>2\<close> milliseconds
  (9 September 2001), where the timestamp goes from twelve digits to thirteen;
  \<open>loc_2001_a\<close> and \<open>loc_2001_a2\<close> have the same timestamp and different coordinates.
  \<open>loc_missing\<close> has no timestamp, \<open>loc_no_coords\<close> has no coordinates, and
  \<open>loc_overflow\<close> has a latitude that is too large for a float.
\<close>

definition loc_1000000 :: raw_location where
  "loc_1000000 = \<lparr>timestampMs = Some (JStr ''1000000''), latitudeE7 = Some (JInt 100000000),
     longitudeE7 = Some (JInt 200000000)\<rparr>"

definition loc_2000000 :: raw_location where
  "loc_2000000 = \<lparr>timestampMs = Some (JStr ''2000000''), latitudeE7 = Some (JInt 110000000),
     longitudeE7 = Some (JInt 210000000)\<rparr>"

definition loc_5000000 :: raw_location where
  "loc_5000000 = \<lparr>timestampMs = Some (JStr ''5000000''), latitudeE7 = Some (JInt 120000000),
     longitudeE7 = Some (JInt 220000000)\<rparr>"

definition history_scenario :: "raw_location list" where
  "history_scenario = [loc_1000000, loc_2000000, loc_5000000]"

definition index_scenario :: LocationHistory where
  "index_scenario =
     \<lparr>location_history = [loaded loc_1000000, loaded loc_2000000, loaded loc_5000000],
      timestamps = [1000000, 2000000, 5000000],
      location_dict =
        dict_of Map.empty [loaded loc_1000000, loaded loc_2000000, loaded loc_5000000]\<rparr>"

definition loc_missing :: raw_location where
  "loc_missing = \<lparr>timestampMs = None, latitudeE7 = Some (JInt 130000000),
     longitudeE7 = Some (JInt 230000000)\<rparr>"

definition history_missing :: "raw_location list" where
  "history_missing = [loc_1000000, loc_missing, loc_5000000]"

definition loc_overflow :: raw_location where
  "loc_overflow = \<lparr>timestampMs = Some (JStr ''1000000''), latitudeE7 = Some (JInt (10 ^ 400)),
     longitudeE7 = Some (JInt 200000000)\<rparr>"

definition loc_no_coords :: raw_location where
  "loc_no_coords = \<lparr>timestampMs = Some (JStr ''1990000''), latitudeE7 = None,
     longitudeE7 = None\<rparr>"

definition loc_2001_a :: raw_location where
  "loc_2001_a = \<lparr>timestampMs = Some (JStr ''999999999999''), latitudeE7 = Some (JInt 100000000),
     longitudeE7 = Some (JInt 200000000)\<rparr>"

definition loc_2001_a2 :: raw_location where
  "loc_2001_a2 = \<lparr>timestampMs = Some (JStr ''999999999999''), latitudeE7 = Some (JInt 110000000),
     longitudeE7 = Some (JInt 210000000)\<rparr>"

definition loc_2001_b :: raw_location where
  "loc_2001_b = \<lparr>timestampMs = Some (JStr ''1000000000000''), latitudeE7 = Some (JInt 120000000),
     longitudeE7 = Some (JInt 220000000)\<rparr>"

definition loc_2001_c :: raw_location where
  "loc_2001_c = \<lparr>timestampMs = Some (JStr ''1000000000005''), latitudeE7 = Some (JInt 130000000),
     longitudeE7 = Some (JInt 230000000)\<rparr>"



section \<open>Loading\<close>

lemma timestampMs_extend [simp]: "timestampMs (raw_location.extend r m) = timestampMs r"
  by (simp add: raw_location.extend_def)

lemma int_timestampMs_extend [simp]:
  "int_timestampMs (raw_location.extend r m) = int_timestampMs r"
  by (simp add: int_timestampMs_def get_timestampMs_def)

lemma latitudeE7_extend [simp]: "latitudeE7 (raw_location.extend r m) = latitudeE7 r"
  by (simp add: raw_location.extend_def)

lemma longitudeE7_extend [simp]: "longitudeE7 (raw_location.extend r m) = longitudeE7 r"
  by (simp add: raw_location.extend_def)

lemma msec_of_loaded [simp]: "msec_of (loaded r) = msec_of r"
  by (simp add: msec_of_def loaded_def)

lemma usable_loaded [simp]: "usable (loaded r) = usable r"
  by (simp add: usable_def loaded_def split: sum.splits)

lemma timestampMs_loaded [simp]: "timestampMs (loaded r) = timestampMs r"
  by (simp add: loaded_def)

lemma usable_int: "usable x \<Longrightarrow> int_timestampMs x = Inr (msec_of x)"
  by (simp add: usable_def msec_of_def split: sum.splits)

lemma usable_range: "usable x \<Longrightarrow> datetime_min_msec \<le> msec_of x \<and> msec_of x \<le> datetime_max_msec"
  by (simp add: usable_def msec_of_def split: sum.splits)

lemma usable_key: "usable x \<Longrightarrow> timestampMs x \<noteq> None"
  by (auto simp: usable_def int_timestampMs_def get_timestampMs_def split: sum.splits option.splits)

lemma load_location_usable: "usable r \<Longrightarrow> load_location r = Inr (loaded r)"
  by (auto simp: load_location_def usable_def loaded_def msec_of_def msec_to_datetime_def
      split: sum.splits)

lemma load_location_unusable: "\<not> usable r \<Longrightarrow> \<exists>e. load_location r = Inl e"
  by (auto simp: load_location_def usable_def msec_to_datetime_def split: sum.splits)

lemma load_location_Inr: "load_location r = Inr x \<Longrightarrow> usable r \<and> x = loaded r"
  using load_location_usable [of r] load_location_unusable [of r] by (cases "usable r") auto

lemma load_locations_usable:
  "\<forall>r\<in>set rs. usable r \<Longrightarrow> load_locations rs = Inr (map loaded rs)"
  by (induction rs) (simp_all add: load_location_usable)

lemma load_locations_Inr:
  "load_locations rs = Inr xs \<Longrightarrow> (\<forall>r\<in>set rs. usable r) \<and> xs = map loaded rs"
proof (induction rs arbitrary: xs)
  case Nil
  then show ?case by simp
next
  case (Cons r rs)
  from Cons.prems obtain x ys where x: "load_location r = Inr x"
    and ys: "load_locations rs = Inr ys" and xs: "xs = x # ys"
    by (auto split: sum.splits)
  from load_location_Inr [OF x] Cons.IH [OF ys] xs show ?case by simp
qed

lemma load_locations_Inl:
  "load_locations rs = Inl e \<Longrightarrow> \<exists>r\<in>set rs. \<not> usable r"
  using load_locations_usable [of rs] by auto

lemma py_int_error: "py_int v = Inl e \<Longrightarrow> e = ValueError invalid_literal"
  by (cases v) (auto simp: py_int_str_def split: list.splits option.splits if_splits)

lemma py_div_1e7_error: "py_div_1e7 v = Inl e \<Longrightarrow> e = OverflowError \<or> e = TypeError"
  by (cases v) (auto simp: py_float_of_int_def Let_def split: sum.splits if_splits)

lemma coordinate_error: "coordinate c = Inl e \<Longrightarrow> e = OverflowError \<or> e = TypeError"
  by (auto simp: coordinate_def split: option.splits sum.splits dest: py_div_1e7_error)

lemma load_location_error:
  "load_location r = Inl e \<Longrightarrow>
     e = KeyError \<and> timestampMs r = None \<or> e = ValueError invalid_literal \<or>
     e = DatetimeRangeError \<or> e = OverflowError \<or> e = TypeError"
  by (auto simp: load_location_def int_timestampMs_def get_timestampMs_def msec_to_datetime_def
      split: sum.splits option.splits if_splits dest: py_int_error coordinate_error)

lemma load_location_missing: "timestampMs r = None \<Longrightarrow> load_location r = Inl KeyError"
  by (simp add: load_location_def int_timestampMs_def get_timestampMs_def)

lemma load_locations_error:
  "load_locations rs = Inl e \<Longrightarrow>
     e = KeyError \<or> e = ValueError invalid_literal \<or> e = DatetimeRangeError \<or>
     e = OverflowError \<or> e = TypeError"
proof (induction rs)
  case Nil
  then show ?case by simp
next
  case (Cons r rs)
  then show ?case
    by (auto split: sum.splits dest: load_location_error)
qed

lemma load_locations_first_missing:
  "\<forall>p\<in>set pre. usable p \<Longrightarrow> timestampMs r = None \<Longrightarrow>
     load_locations (pre @ r # post) = Inl KeyError"
  by (induction pre) (simp_all add: load_location_missing load_location_usable)

lemma py_sorted_result:
  "py_sorted key xs = Inr ys \<Longrightarrow> mset ys = mset xs"
  by (auto simp: py_sorted_def split: if_splits)

lemma py_sorted_error: "py_sorted key xs = Inl e \<Longrightarrow> e = TypeError"
  by (auto simp: py_sorted_def split: if_splits)

lemma keys_present: "\<forall>r\<in>set rs. usable r \<Longrightarrow> list_all (\<lambda>x. timestampMs x \<noteq> None) (map loaded rs)"
  using usable_key by (induction rs) auto

lemma load_location_history_usable:
  "\<forall>r\<in>set rs. usable r \<Longrightarrow>
     load_location_history (Some rs) = py_sorted (\<lambda>x. the (timestampMs x)) (map loaded rs)"
proof -
  assume u: "\<forall>r\<in>set rs. usable r"
  have "load_try (Some rs) = py_sorted (\<lambda>x. the (timestampMs x)) (map loaded rs)"
    using keys_present [OF u] by (simp add: load_try_def load_locations_usable [OF u])
  moreover have "py_sorted (\<lambda>x. the (timestampMs x)) (map loaded rs) \<noteq> Inl KeyError"
    using py_sorted_error by fastforce
  ultimately show ?thesis
    by (auto simp: load_location_history_def split: sum.splits error.splits)
qed

lemma load_location_history_unusable:
  "\<exists>r\<in>set rs. \<not> usable r \<Longrightarrow>
     load_location_history (Some rs) = Inl (ValueError history_not_found) \<or>
     load_location_history (Some rs) = Inl (ValueError invalid_literal) \<or>
     load_location_history (Some rs) = Inl DatetimeRangeError \<or>
     load_location_history (Some rs) = Inl OverflowError \<or>
     load_location_history (Some rs) = Inl TypeError"
proof -
  assume "\<exists>r\<in>set rs. \<not> usable r"
  then obtain e where e: "load_locations rs = Inl e"
    using load_locations_Inr [of rs] by (cases "load_locations rs") auto
  from load_locations_error [OF e] show ?thesis
    by (auto simp: load_location_history_def load_try_def e)
qed

lemma load_location_history_Inr:
  "load_location_history data = Inr lh \<Longrightarrow>
     \<exists>rs. data = Some rs \<and> (\<forall>r\<in>set rs. usable r) \<and>
       py_sorted (\<lambda>x. the (timestampMs x)) (map loaded rs) = Inr lh"
proof (cases data)
  case None
  assume "load_location_history data = Inr lh"
  with None show ?thesis by (simp add: load_location_history_def load_try_def)
next
  case (Some rs)
  assume a: "load_location_history data = Inr lh"
  have u: "\<forall>r\<in>set rs. usable r"
    using a Some load_location_history_unusable [of rs] by auto
  with a Some show ?thesis by (simp add: load_location_history_usable)
qed

lemma extract_timestamps_usable:
  "\<forall>x\<in>set xs. usable x \<Longrightarrow> extract_timestamps_from_history xs = Inr (map msec_of xs)"
  by (induction xs) (simp_all add: usable_int)

lemma dict_by_timestamp_usable:
  "\<forall>x\<in>set xs. usable x \<Longrightarrow> dict_by_timestamp d xs = Inr (dict_of d xs)"
  by (induction xs arbitrary: d) (simp_all add: usable_int dict_of_def)

lemma LocationHistory_init_Inr:
  "LocationHistory_init data = Inr h \<Longrightarrow>
     \<exists>rs. data = Some rs \<and> (\<forall>r\<in>set rs. usable r) \<and>
       py_sorted (\<lambda>x. the (timestampMs x)) (map loaded rs) = Inr (location_history h) \<and>
       timestamps h = map msec_of (location_history h) \<and>
       location_dict h = dict_of Map.empty (location_history h)"
proof -
  assume a: "LocationHistory_init data = Inr h"
  then obtain lh where lh: "load_location_history data = Inr lh"
    by (auto simp: LocationHistory_init_def split: sum.splits)
  from load_location_history_Inr [OF lh] obtain rs where rs: "data = Some rs"
    and u: "\<forall>r\<in>set rs. usable r"
    and s: "py_sorted (\<lambda>x. the (timestampMs x)) (map loaded rs) = Inr lh" by blast
  have "set lh = set (map loaded rs)"
    using py_sorted_result [OF s] by (metis mset_eq_setD)
  with u have ul: "\<forall>x\<in>set lh. usable x" by auto
  from a lh have "h = \<lparr>location_history = lh, timestamps = map msec_of lh,
      location_dict = dict_of Map.empty lh\<rparr>"
    by (simp add: LocationHistory_init_def extract_timestamps_usable [OF ul]
        location_history_to_dict_by_timestamp_def dict_by_timestamp_usable [OF ul])
  with rs u s show ?thesis by simp
qed

lemma dict_of_Nil [simp]: "dict_of d [] = d"
  by (simp add: dict_of_def)

lemma dict_of_Cons [simp]: "dict_of d (x # xs) = dict_of (d(msec_of x \<mapsto> x)) xs"
  by (simp add: dict_of_def)

lemma dict_of_append [simp]: "dict_of d (xs @ ys) = dict_of (dict_of d xs) ys"
  by (simp add: dict_of_def)

lemma dom_dict_of: "dom (dict_of d xs) = dom d \<union> msec_of ` set xs"
  by (induction xs arbitrary: d) auto

lemma dict_of_member:
  "t \<in> msec_of ` set xs \<Longrightarrow> \<exists>x\<in>set xs. dict_of d xs t = Some x \<and> msec_of x = t"
proof (induction xs arbitrary: d rule: rev_induct)
  case Nil
  then show ?case by simp
next
  case (snoc y ys)
  show ?case
  proof (cases "msec_of y = t")
    case True
    then show ?thesis by simp
  next
    case False
    with snoc.prems have "t \<in> msec_of ` set ys" by auto
    from snoc.IH [OF this, of d] False show ?thesis by auto
  qed
qed

lemma LocationHistory_init_usable:
  assumes "\<forall>r\<in>set rs. usable r"
    and "py_sorted (\<lambda>x. the (timestampMs x)) (map loaded rs) = Inr lh"
  shows "LocationHistory_init (Some rs) =
     Inr \<lparr>location_history = lh, timestamps = map msec_of lh,
          location_dict = dict_of Map.empty lh\<rparr>"
proof -
  have "set lh = set (map loaded rs)"
    using py_sorted_result [OF assms(2)] by (metis mset_eq_setD)
  with assms(1) have ul: "\<forall>x\<in>set lh. usable x" by auto
  show ?thesis
    by (simp add: LocationHistory_init_def load_location_history_usable [OF assms(1)] assms(2)
        extract_timestamps_usable [OF ul] location_history_to_dict_by_timestamp_def
        dict_by_timestamp_usable [OF ul])
qed

lemma LocationHistory_init_length:
  "LocationHistory_init (Some rs) = Inr h \<Longrightarrow> length (location_history h) = length rs"
proof -
  assume "LocationHistory_init (Some rs) = Inr h"
  from LocationHistory_init_Inr [OF this]
  have "py_sorted (\<lambda>x. the (timestampMs x)) (map loaded rs) = Inr (location_history h)"
    by auto
  from py_sorted_result [OF this] have "size (mset (location_history h)) = size (mset (map loaded rs))"
    by simp
  then show ?thesis by simp
qed

lemma bisect_left_Nil [simp]: "bisect_left [] x = 0"
  by (simp add: bisect_left_def bisect_left_loop.simps)

lemma nearest_empty:
  "timestamps h = [] \<Longrightarrow> nearest_location_from_timestamp h msec = Inl (ValueError min_empty)"
  by (simp add: nearest_location_from_timestamp_def py_slice_def)


section \<open>Floating point: the quotient by 1000 and the coordinates\<close>

text \<open>
  Below \<open>1000 * 2\<^sup>4\<^sup>3\<close> milliseconds the rounding of the quotient never reaches the
  next whole second, so that \<^verbatim>\<open>int(n / 1000)\<close> is \<open>n div 1000\<close>. An integer below
  \<open>2\<^sup>1\<^sup>0\<^sup>2\<^sup>3\<close> in magnitude converts to a float, so that a coordinate of that size
  divides by \<^verbatim>\<open>1e7\<close>.
\<close>

lemma round_half_even_upper: "of_int (round_half_even z) \<le> z + 1 / 2"
  unfolding round_half_even_def Let_def by (auto; linarith)

lemma round_half_even_floor: "\<lfloor>z\<rfloor> \<le> round_half_even z"
  unfolding round_half_even_def Let_def by auto

lemma round_half_even_ge: "of_int k \<le> z \<Longrightarrow> k \<le> round_half_even z"
  using round_half_even_floor [of z] le_floor_iff [of k z] by linarith

lemma binary64_exponent_le:
  assumes "0 < x"
  shows "2 powi (binary64_exponent x) \<le> x"
proof -
  obtain a b where q: "quotient_of x = (a, b)" by (cases "quotient_of x")
  have b: "0 < b" using quotient_of_denom_pos [OF q] .
  have x: "x = of_int a / of_int b" using quotient_of_div [OF q] .
  have a: "0 < a" using assms b x by (simp add: zero_less_divide_iff)
  let ?e0 = "bitlen a - bitlen b"
  show ?thesis
  proof (cases "2 powi ?e0 \<le> x")
    case True
    then show ?thesis by (simp add: binary64_exponent_def q)
  next
    case False
    have la: "(2::rat) powi (bitlen a - 1) \<le> of_int a"
    proof -
      have "1 \<le> bitlen a" using a bitlen_eq_zero_iff [of a] bitlen_nonneg [of a] by linarith
      then have "(2::rat) powi (bitlen a - 1) = 2 ^ nat (bitlen a - 1)"
        by (simp add: power_int_def)
      also have "\<dots> = of_int (2 ^ nat (bitlen a - 1))" by simp
      also have "\<dots> \<le> of_int a" using bitlen_bounds [OF a] by (simp only: of_int_le_iff)
      finally show ?thesis .
    qed
    have lb: "of_int b \<le> (2::rat) powi (bitlen b)"
    proof -
      have "of_int b \<le> (of_int (2 ^ nat (bitlen b)) :: rat)"
        using bitlen_bounds [OF b] by (simp only: of_int_le_iff) simp
      also have "\<dots> = 2 powi (bitlen b)" using bitlen_nonneg [of b] by (simp add: power_int_def)
      finally show ?thesis .
    qed
    have "(2::rat) powi (?e0 - 1) = 2 powi (bitlen a - 1) / 2 powi (bitlen b)"
      using power_int_diff [of "2::rat" "bitlen a - 1" "bitlen b"] by (simp add: algebra_simps)
    also have "\<dots> \<le> of_int a / of_int b"
      using la lb b a by (intro frac_le) auto
    finally have "(2::rat) powi (?e0 - 1) \<le> x" using x by simp
    moreover have "binary64_exponent x = ?e0 - 1"
      using False by (simp add: binary64_exponent_def q)
    ultimately show ?thesis by simp
  qed
qed

lemma round_binary64_bound:
  assumes "1 \<le> \<bar>x\<bar>"
  shows "\<bar>round_binary64 x\<bar> \<le> 2 * \<bar>x\<bar>"
proof -
  define a where "a = \<bar>x\<bar>"
  have a1: "1 \<le> a" using assms by (simp add: a_def)
  then have apos: "0 < a" by simp
  define E where "E = max (binary64_exponent a) (- 1022)"
  define u :: rat where "u = 2 powi (E - 52)"
  have upos: "0 < u" by (simp add: u_def)
  have ua: "u \<le> a"
  proof (cases "- 1022 \<le> binary64_exponent a")
    case True
    then have "E = binary64_exponent a" by (simp add: E_def)
    then have "u \<le> 2 powi (binary64_exponent a)"
      unfolding u_def by (simp add: power_int_increasing)
    with binary64_exponent_le [OF apos] show ?thesis by linarith
  next
    case False
    then have "E = - 1022" by (simp add: E_def)
    then have "u \<le> 2 powi 0" unfolding u_def by (simp add: power_int_increasing)
    with a1 show ?thesis by simp
  qed
  define m where "m = round_half_even (a / u)"
  have "(of_int 0 :: rat) \<le> a / u" using apos upos by simp
  then have m0: "0 \<le> m" unfolding m_def by (rule round_half_even_ge)
  have "of_int m \<le> a / u + 1 / 2" unfolding m_def by (rule round_half_even_upper)
  then have "of_int m * u \<le> (a / u + 1 / 2) * u"
    using upos by (intro mult_right_mono) auto
  also have "\<dots> = a + u / 2" using upos by (simp add: field_simps)
  also have "\<dots> \<le> 2 * a" using ua apos by linarith
  finally have le: "of_int m * u \<le> 2 * a" .
  have x0: "x \<noteq> 0" using assms by auto
  have "round_binary64 x = sgn x * (of_int m * u)"
    using x0 by (simp add: round_binary64_def Let_def a_def E_def u_def m_def)
  then have "\<bar>round_binary64 x\<bar> = of_int m * u"
    using x0 m0 upos by (simp add: abs_mult abs_sgn_eq)
  with le show ?thesis by (simp add: a_def)
qed

lemma py_float_of_int_small:
  assumes "\<bar>n\<bar> < 2 ^ 1023"
  shows "py_float_of_int n = Inr (round_binary64 (of_int n))"
proof (cases "n = 0")
  case True
  then show ?thesis by (simp add: py_float_of_int_def round_binary64_def)
next
  case False
  then have "1 \<le> \<bar>n\<bar>" by simp
  then have "(of_int 1 :: rat) \<le> of_int \<bar>n\<bar>" by (simp only: of_int_le_iff)
  then have 1: "1 \<le> \<bar>of_int n :: rat\<bar>" by simp
  have "(of_int \<bar>n\<bar> :: rat) < of_int (2 ^ 1023)" using assms by (simp only: of_int_less_iff)
  then have "\<bar>of_int n :: rat\<bar> < 2 ^ 1023" by simp
  with round_binary64_bound [OF 1]
  have "\<bar>round_binary64 (of_int n)\<bar> < 2 * 2 ^ 1023" by linarith
  also have "(2::rat) * 2 ^ 1023 = 2 ^ 1024" by simp
  finally show ?thesis by (simp add: py_float_of_int_def Let_def)
qed

lemma coordinate_None [simp]: "coordinate None = Inr None"
  by (simp add: coordinate_def)

lemma coordinate_small:
  "\<bar>n\<bar> < 2 ^ 1023 \<Longrightarrow>
     coordinate (Some (JInt n)) =
       Inr (Some (round_binary64 (round_binary64 (of_int n) / 10000000)))"
  by (simp add: coordinate_def py_float_of_int_small)

lemma round_binary64_big:
  assumes "2 ^ 1024 \<le> \<bar>x\<bar>"
  shows "2 ^ 1024 \<le> \<bar>round_binary64 x\<bar>"
proof -
  define a where "a = \<bar>x\<bar>"
  have a1: "2 ^ 1024 \<le> a" using assms by (simp add: a_def)
  have "(0::rat) < 2 ^ 1024" by simp
  with a1 have apos: "0 < a" by linarith
  define E where "E = max (binary64_exponent a) (- 1022)"
  define u :: rat where "u = 2 powi (E - 52)"
  have upos: "0 < u" by (simp add: u_def)
  define m where "m = round_half_even (a / u)"
  have big: "2 ^ 1024 \<le> of_int m * u"
  proof (cases "E - 52 \<le> 1024")
    case True
    define k :: int where "k = 2 ^ nat (1024 - (E - 52))"
    have "(of_int k :: rat) = 2 powi (1024 - (E - 52))"
      using True by (simp add: k_def power_int_def)
    then have ku: "of_int k * u = 2 powi 1024"
      unfolding u_def by (simp add: power_int_add [symmetric])
    then have ku': "of_int k * u = 2 ^ 1024" by (simp add: power_int_def)
    then have "of_int k = 2 ^ 1024 / u" using upos by (simp add: field_simps)
    also have "\<dots> \<le> a / u" using a1 upos by (intro divide_right_mono) auto
    finally have "k \<le> m" unfolding m_def by (rule round_half_even_ge)
    then have "(of_int k :: rat) \<le> of_int m" by (simp only: of_int_le_iff)
    then have "of_int k * u \<le> of_int m * u" using upos by (intro mult_right_mono) auto
    with ku' show ?thesis by simp
  next
    case False
    then have Ee: "E = binary64_exponent a" by (simp add: E_def)
    have "(2::rat) powi 52 = 2 powi E / u"
      unfolding u_def by (simp add: power_int_diff)
    also have "\<dots> \<le> a / u"
      using binary64_exponent_le [OF apos] upos unfolding Ee by (intro divide_right_mono) auto
    finally have "(of_int 1 :: rat) \<le> a / u"
      by (simp add: power_int_def) 
    then have "1 \<le> m" unfolding m_def by (rule round_half_even_ge)
    then have "(of_int 1 :: rat) \<le> of_int m" by (simp only: of_int_le_iff)
    then have "1 * u \<le> of_int m * u" using upos by (intro mult_right_mono) auto
    then have um: "u \<le> of_int m * u" by simp
    have "(2::rat) powi 1024 \<le> u"
      unfolding u_def using False by (intro power_int_increasing) auto
    then have "(2::rat) ^ 1024 \<le> u" by (simp add: power_int_def)
    with um show ?thesis by linarith
  qed
  have "(of_int 0 :: rat) \<le> a / u" using apos upos by simp
  then have m0: "0 \<le> m" unfolding m_def by (rule round_half_even_ge)
  have x0: "x \<noteq> 0" using apos by (auto simp: a_def)
  have "round_binary64 x = sgn x * (of_int m * u)"
    using x0 by (simp add: round_binary64_def Let_def a_def E_def u_def m_def)
  then have "\<bar>round_binary64 x\<bar> = of_int m * u"
    using x0 m0 upos by (simp add: abs_mult abs_sgn_eq)
  with big show ?thesis by simp
qed

lemma py_float_of_int_big:
  assumes "2 ^ 1024 \<le> \<bar>n\<bar>"
  shows "py_float_of_int n = Inl OverflowError"
proof -
  have "(of_int (2 ^ 1024) :: rat) \<le> of_int \<bar>n\<bar>" using assms by (simp only: of_int_le_iff)
  then have "2 ^ 1024 \<le> \<bar>of_int n :: rat\<bar>" by simp
  from round_binary64_big [OF this] show ?thesis by (simp add: py_float_of_int_def Let_def)
qed

lemma coordinate_big:
  "2 ^ 1024 \<le> \<bar>n\<bar> \<Longrightarrow> coordinate (Some (JInt n)) = Inl OverflowError"
  by (simp add: coordinate_def py_float_of_int_big)

lemma coordinate_string [simp]: "coordinate (Some (JStr s)) = Inl TypeError"
  by (simp add: coordinate_def)

lemma py_truediv_1000:
  assumes "0 \<le> n" and "n < 1000 * 2 ^ 43"
  shows "\<exists>y. py_truediv n 1000 = Inr y \<and> py_int_of_float y = n div 1000"
proof (cases "n = 0")
  case True
  then show ?thesis by (simp add: py_truediv_def round_binary64_def py_int_of_float_def)
next
  case False
  define x :: rat where "x = of_int n / 1000"
  define k where "k = n div 1000"
  have xpos: "0 < x" using assms(1) False by (simp add: x_def)
  have kx: "of_int k \<le> x"
  proof -
    have "k * 1000 \<le> n" unfolding k_def by presburger
    then have "(of_int (k * 1000) :: rat) \<le> of_int n" by (simp only: of_int_le_iff)
    then show ?thesis by (simp add: x_def field_simps)
  qed
  have xk: "x \<le> of_int k + 999 / 1000"
  proof -
    have "n \<le> k * 1000 + 999"
      unfolding k_def by presburger
    then have "(of_int n :: rat) \<le> of_int (k * 1000 + 999)" by (simp only: of_int_le_iff)
    then show ?thesis by (simp add: x_def field_simps)
  qed
  have k43: "k < 2 ^ 43" unfolding k_def using assms(2) by simp
  have x43: "x < 2 ^ 43"
  proof -
    have "(of_int n :: rat) < of_int (1000 * 2 ^ 43)" using assms(2) by (simp only: of_int_less_iff)
    then show ?thesis by (simp add: x_def)
  qed
  have ax: "\<bar>x\<bar> = x" using xpos by simp
  define E where "E = max (binary64_exponent x) (- 1022)"
  have "(2::rat) powi (binary64_exponent x) < 2 powi 43"
    using binary64_exponent_le [OF xpos] x43 by simp
  then have "binary64_exponent x < 43"
    by (rule power_int_le_imp_less_exp [rotated]) simp_all
  then have E42: "E \<le> 42" by (simp add: E_def)
  define J where "J = nat (52 - E)"
  have J10: "10 \<le> J" using E42 by (simp add: J_def)
  have ulp: "(2::rat) powi (E - 52) = 1 / 2 ^ J"
    using E42 by (simp add: J_def power_int_def inverse_eq_divide power_one_over)
  define m where "m = round_half_even (x * 2 ^ J)"
  have rb: "round_binary64 x = of_int m / 2 ^ J"
    unfolding round_binary64_def Let_def ax E_def [symmetric] ulp m_def using xpos by simp
  define y :: rat where "y = of_int m / 2 ^ J"
  have lower: "of_int k \<le> y"
  proof -
    have "(of_int (k * 2 ^ J) :: rat) \<le> x * 2 ^ J" using kx by simp
    then have "k * 2 ^ J \<le> m" unfolding m_def by (rule round_half_even_ge)
    then have "(of_int (k * 2 ^ J) :: rat) \<le> of_int m" by (simp only: of_int_le_iff)
    then show ?thesis by (simp add: y_def field_simps)
  qed
  have upper: "y < of_int k + 1"
  proof -
    have "(2::rat) ^ 10 \<le> 2 ^ J" using J10 by (intro power_increasing) auto
    then have p: "(1024::rat) \<le> 2 ^ J" by simp
    have "of_int m \<le> x * 2 ^ J + 1 / 2" unfolding m_def by (rule round_half_even_upper)
    then have "y \<le> x + (1 / 2) / 2 ^ J" by (simp add: y_def field_simps)
    also have "(1 / 2) / (2::rat) ^ J \<le> (1 / 2) / 1024" using p by (intro divide_left_mono) auto
    finally have "y \<le> x + 1 / 2048" by simp
    with xk show ?thesis by simp
  qed
  have "0 \<le> k" unfolding k_def using assms(1) by (simp add: pos_imp_zdiv_nonneg_iff)
  then have "(0::rat) \<le> of_int k" by simp
  with lower have ypos: "0 \<le> y" by linarith
  have fl: "\<lfloor>y\<rfloor> = k" using lower upper by (simp add: floor_unique)
  have "y < 2 ^ 43"
  proof -
    have "k + 1 \<le> 2 ^ 43" using k43 by simp
    then have "(of_int (k + 1) :: rat) \<le> of_int (2 ^ 43)" by (simp only: of_int_le_iff)
    then show ?thesis using upper by simp
  qed
  also have "(2::rat) ^ 43 < 2 ^ 1024" by (intro power_strict_increasing) auto
  finally have small: "\<not> 2 ^ 1024 \<le> \<bar>y\<bar>" using ypos by simp
  have "py_truediv n 1000 = Inr y"
    using small by (simp add: py_truediv_def Let_def rb [unfolded x_def] y_def)
  then show ?thesis using fl ypos by (auto simp: py_int_of_float_def k_def)
qed

section \<open>The nearest timestamp\<close>

lemma bisect_left_loop_done: "\<not> lo < hi \<Longrightarrow> bisect_left_loop a x lo hi = lo"
  by (subst bisect_left_loop.simps) simp

lemma bisect_left_loop_right:
  "lo < hi \<Longrightarrow> a ! ((lo + hi) div 2) < x \<Longrightarrow>
     bisect_left_loop a x lo hi = bisect_left_loop a x ((lo + hi) div 2 + 1) hi"
  by (subst bisect_left_loop.simps) simp

lemma bisect_left_loop_left:
  "lo < hi \<Longrightarrow> \<not> a ! ((lo + hi) div 2) < x \<Longrightarrow>
     bisect_left_loop a x lo hi = bisect_left_loop a x lo ((lo + hi) div 2)"
  by (subst bisect_left_loop.simps) simp

lemma bisect_left_loop_bounds:
  "lo \<le> hi \<Longrightarrow> lo \<le> bisect_left_loop a x lo hi \<and> bisect_left_loop a x lo hi \<le> hi"
proof (induction a x lo hi rule: bisect_left_loop.induct)
  case (1 a x lo hi)
  show ?case
  proof (cases "lo < hi")
    case False
    with "1.prems" show ?thesis by (simp add: bisect_left_loop_done)
  next
    case True
    show ?thesis
    proof (cases "a ! ((lo + hi) div 2) < x")
      case l: True
      from True have m: "(lo + hi) div 2 + 1 \<le> hi" "lo \<le> (lo + hi) div 2" by linarith+
      from "1.IH"(1) [OF True l m(1)] m show ?thesis
        unfolding bisect_left_loop_right [OF True l] by linarith
    next
      case l: False
      from True have m: "lo \<le> (lo + hi) div 2" "(lo + hi) div 2 < hi" by linarith+
      from "1.IH"(2) [OF True l m(1)] m show ?thesis
        unfolding bisect_left_loop_left [OF True l] by linarith
    qed
  qed
qed

lemma bisect_left_le: "bisect_left a x \<le> length a"
  using bisect_left_loop_bounds [of 0 "length a" a x] by (simp add: bisect_left_def)

lemma bisect_left_loop_sorted:
  assumes "sorted a" and "lo \<le> hi" and "hi \<le> length a"
    and "\<forall>j<lo. a ! j < x" and "\<forall>j. hi \<le> j \<and> j < length a \<longrightarrow> x \<le> a ! j"
  shows "(\<forall>j<bisect_left_loop a x lo hi. a ! j < x) \<and>
    (\<forall>j. bisect_left_loop a x lo hi \<le> j \<and> j < length a \<longrightarrow> x \<le> a ! j)"
  using assms
proof (induction a x lo hi rule: bisect_left_loop.induct)
  case (1 a x lo hi)
  show ?case
  proof (cases "lo < hi")
    case False
    then have "bisect_left_loop a x lo hi = lo" by (rule bisect_left_loop_done)
    moreover from False "1.prems" have "lo = hi" by simp
    ultimately show ?thesis using "1.prems" by simp
  next
    case True
    let ?mid = "(lo + hi) div 2"
    from True "1.prems" have mid: "lo \<le> ?mid" "?mid < hi" "?mid < length a" by linarith+
    show ?thesis
    proof (cases "a ! ?mid < x")
      case l: True
      have "\<forall>j<?mid + 1. a ! j < x"
      proof (intro allI impI)
        fix j assume "j < ?mid + 1"
        then have "j \<le> ?mid" by simp
        with "1.prems"(1) mid have "a ! j \<le> a ! ?mid" by (simp add: sorted_nth_mono)
        with l show "a ! j < x" by simp
      qed
      with "1.IH"(1) [OF True l "1.prems"(1)] mid "1.prems" show ?thesis
        by (simp add: bisect_left_loop_right [OF True l])
    next
      case l: False
      have "\<forall>j. ?mid \<le> j \<and> j < length a \<longrightarrow> x \<le> a ! j"
      proof (intro allI impI)
        fix j assume "?mid \<le> j \<and> j < length a"
        with "1.prems"(1) have "a ! ?mid \<le> a ! j" by (simp add: sorted_nth_mono)
        with l show "x \<le> a ! j" by simp
      qed
      with "1.IH"(2) [OF True l "1.prems"(1)] mid "1.prems" show ?thesis
        by (simp add: bisect_left_loop_left [OF True l])
    qed
  qed
qed

lemma bisect_left_sorted:
  assumes "sorted a"
  shows "(\<forall>j<bisect_left a x. a ! j < x) \<and>
    (\<forall>j. bisect_left a x \<le> j \<and> j < length a \<longrightarrow> x \<le> a ! j)"
  using bisect_left_loop_sorted [where a = a and lo = 0 and hi = "length a" and x = x] assms
  by (simp add: bisect_left_def)


lemma foldl_min_in: "foldl (\<lambda>best y. if key y < key best then y else best) x xs \<in> set (x # xs)"
  by (induction xs arbitrary: x) auto

lemma foldl_min_le:
  "\<forall>z\<in>set (x # xs).
     key (foldl (\<lambda>best y. if key y < key best then y else best) x xs) \<le> (key z :: int)"
proof (induction xs arbitrary: x)
  case Nil
  then show ?case by simp
next
  case (Cons y ys)
  let ?x' = "if key y < key x then y else x"
  let ?m = "foldl (\<lambda>best y. if key y < key best then y else best) ?x' ys"
  from Cons.IH [of ?x'] have ih: "\<forall>z\<in>set (?x' # ys). key ?m \<le> key z" .
  then have "key ?m \<le> key ?x'" by simp
  moreover have "key ?x' \<le> key x" "key ?x' \<le> key y" by auto
  ultimately have "key ?m \<le> key x" "key ?m \<le> key y" by linarith+
  with ih show ?case by simp
qed

lemma py_min_Inr:
  "xs \<noteq> [] \<Longrightarrow> \<exists>m. py_min key xs = Inr m \<and> m \<in> set xs \<and> (\<forall>z\<in>set xs. key m \<le> key z)"
proof (cases xs)
  case Nil
  assume "xs \<noteq> []"
  with Nil show ?thesis by simp
next
  case (Cons x ys)
  show ?thesis
    using foldl_min_in [of key x ys] foldl_min_le [of x ys key] Cons by auto
qed

lemma set_py_slice: "set (py_slice xs lo hi) \<subseteq> set xs"
  unfolding py_slice_def by (meson set_take_subset set_drop_subset subset_trans)

lemma nth_in_py_slice:
  assumes "lo \<le> j" and "j < hi" and "j < length xs"
  shows "xs ! j \<in> set (py_slice xs lo hi)"
proof -
  have "j - lo < length (py_slice xs lo hi)" using assms by (simp add: py_slice_def) linarith
  moreover have "py_slice xs lo hi ! (j - lo) = xs ! j" using assms by (simp add: py_slice_def)
  ultimately show ?thesis by (metis nth_mem)
qed

lemma window_index: "nat (max 0 (int i - 1)) = i - 1"
  by linarith

lemma nearest_location_from_timestamp_Inr:
  assumes "timestamps h \<noteq> []"
  shows "\<exists>t. nearest_location_from_timestamp h q = Inr t \<and> t \<in> set (timestamps h) \<and>
    (\<forall>u\<in>set (py_slice (timestamps h) (bisect_left (timestamps h) q - 1)
        (bisect_left (timestamps h) q + 2)). \<bar>q - t\<bar> \<le> \<bar>q - u\<bar>)"
proof -
  let ?ts = "timestamps h"
  let ?i = "bisect_left ?ts q"
  let ?w = "py_slice ?ts (?i - 1) (?i + 2)"
  have "?i \<le> length ?ts" by (rule bisect_left_le)
  with assms have "?i - 1 < length ?ts" by (cases ?ts) auto
  then have "?ts ! (?i - 1) \<in> set ?w" by (intro nth_in_py_slice) auto
  then have "?w \<noteq> []" by auto
  from py_min_Inr [OF this, of "\<lambda>t. \<bar>q - t\<bar>"] obtain t where
    t: "py_min (\<lambda>t. \<bar>q - t\<bar>) ?w = Inr t" "t \<in> set ?w" "\<forall>u\<in>set ?w. \<bar>q - t\<bar> \<le> \<bar>q - u\<bar>"
    by blast
  have "nearest_location_from_timestamp h q = Inr t"
    using t(1) by (simp add: nearest_location_from_timestamp_def Let_def window_index del: One_nat_def)
  moreover have "t \<in> set ?ts" using t(2) set_py_slice by fastforce
  ultimately show ?thesis using t(3) by blast
qed

lemma nearest_location_from_timestamp_sorted:
  assumes "timestamps h \<noteq> []" and "sorted (timestamps h)"
  shows "\<exists>t. nearest_location_from_timestamp h q = Inr t \<and> t \<in> set (timestamps h) \<and>
    (\<forall>u\<in>set (timestamps h). \<bar>q - t\<bar> \<le> \<bar>q - u\<bar>)"
proof -
  let ?ts = "timestamps h"
  let ?i = "bisect_left ?ts q"
  let ?w = "py_slice ?ts (?i - 1) (?i + 2)"
  from nearest_location_from_timestamp_Inr [OF assms(1), of q] obtain t where
    t: "nearest_location_from_timestamp h q = Inr t" "t \<in> set ?ts"
      "\<forall>u\<in>set ?w. \<bar>q - t\<bar> \<le> \<bar>q - u\<bar>" by blast
  from bisect_left_sorted [OF assms(2), of q]
  have below: "\<forall>j<?i. ?ts ! j < q" and above: "\<forall>j. ?i \<le> j \<and> j < length ?ts \<longrightarrow> q \<le> ?ts ! j"
    by blast+
  have "\<bar>q - t\<bar> \<le> \<bar>q - u\<bar>" if "u \<in> set ?ts" for u
  proof -
    from that obtain j where j: "j < length ?ts" "u = ?ts ! j" by (metis in_set_conv_nth)
    show ?thesis
    proof (cases "j < ?i")
      case True
      then have p: "?i - 1 < length ?ts" "j \<le> ?i - 1" "?i - 1 < ?i"
        using j bisect_left_le [of ?ts q] by linarith+
      then have "?ts ! (?i - 1) \<in> set ?w" by (intro nth_in_py_slice) auto
      with t(3) have "\<bar>q - t\<bar> \<le> \<bar>q - ?ts ! (?i - 1)\<bar>" by blast
      moreover have "?ts ! j \<le> ?ts ! (?i - 1)" using assms(2) p by (simp add: sorted_nth_mono)
      moreover have "?ts ! (?i - 1) < q" using below p by blast
      ultimately show ?thesis using j by linarith
    next
      case False
      then have p: "?i < length ?ts" "?i \<le> j" using j by auto
      then have "?ts ! ?i \<in> set ?w" by (intro nth_in_py_slice) auto
      with t(3) have "\<bar>q - t\<bar> \<le> \<bar>q - ?ts ! ?i\<bar>" by blast
      moreover have "?ts ! ?i \<le> ?ts ! j" using assms(2) p j by (simp add: sorted_nth_mono)
      moreover have "q \<le> ?ts ! ?i" using above p by blast
      ultimately show ?thesis using j by linarith
    qed
  qed
  with t show ?thesis by blast
qed

lemma foldl_min_first:
  "\<exists>pre post. x # xs = pre @ foldl (\<lambda>best y. if key y < key best then y else best) x xs # post \<and>
     (\<forall>u\<in>set pre. key (foldl (\<lambda>best y. if key y < key best then y else best) x xs) < (key u :: int))"
proof (induction xs rule: rev_induct)
  case Nil
  show ?case by (rule exI [of _ "[]"]) simp
next
  case (snoc y ys)
  let ?m = "foldl (\<lambda>best y. if key y < key best then y else best) x ys"
  from snoc.IH obtain pre post where p: "x # ys = pre @ ?m # post" "\<forall>u\<in>set pre. key ?m < key u"
    by blast
  show ?case
  proof (cases "key y < key ?m")
    case True
    then have m: "foldl (\<lambda>best y. if key y < key best then y else best) x (ys @ [y]) = y"
      by simp
    have "\<forall>u\<in>set (x # ys). key y < key u"
      using foldl_min_le [of x ys key] True by fastforce
    then show ?thesis unfolding m by (intro exI [of _ "x # ys"] exI [of _ "[]"]) simp
  next
    case False
    then have m: "foldl (\<lambda>best y. if key y < key best then y else best) x (ys @ [y]) = ?m"
      by simp
    have "x # ys @ [y] = pre @ ?m # (post @ [y])" using p(1) by simp
    with p(2) show ?thesis unfolding m by blast
  qed
qed

lemma py_min_first:
  "py_min key xs = Inr m \<Longrightarrow> \<exists>pre post. xs = pre @ m # post \<and> (\<forall>u\<in>set pre. key m < key u)"
  using foldl_min_first [of _ _ key] by (cases xs) auto

lemma nearest_first_in_window:
  assumes "nearest_location_from_timestamp h q = Inr t"
  shows "\<exists>pre post.
    py_slice (timestamps h) (bisect_left (timestamps h) q - 1) (bisect_left (timestamps h) q + 2)
      = pre @ t # post \<and>
    (\<forall>u\<in>set pre. \<bar>q - t\<bar> < \<bar>q - u\<bar>)"
proof -
  let ?w = "py_slice (timestamps h) (bisect_left (timestamps h) q - 1)
    (bisect_left (timestamps h) q + 2)"
  from assms have "py_min (\<lambda>t. \<bar>q - t\<bar>) ?w = Inr t"
    by (simp add: nearest_location_from_timestamp_def window_index Let_def)
  from py_min_first [OF this] show ?thesis .
qed

section \<open>Constructed indexes\<close>

text \<open>
  What holds of every \<^verbatim>\<open>LocationHistory\<close> that \<^verbatim>\<open>__init__\<close> returns: its records are
  usable, and on a non-empty one \<^verbatim>\<open>nearest_location\<close> returns a record of the list,
  the one the dictionary has under the timestamp that was found, with the delta whose
  whole seconds are the quotient of the distance by 1000.
\<close>

lemma LocationHistory_init_usable_records:
  assumes "LocationHistory_init data = Inr h"
  shows "\<forall>x\<in>set (location_history h). usable x"
proof -
  from LocationHistory_init_Inr [OF assms] obtain rs where
    u: "\<forall>r\<in>set rs. usable r" and
    s: "py_sorted (\<lambda>x. the (timestampMs x)) (map loaded rs) = Inr (location_history h)"
    by blast
  have "set (location_history h) = set (map loaded rs)"
    using py_sorted_result [OF s] by (metis mset_eq_setD)
  with u show ?thesis by auto
qed

lemma nearest_location_constructed:
  assumes "LocationHistory_init data = Inr h" and "location_history h \<noteq> []"
    and "photo_date_msec msec"
  shows "\<exists>x t d. nearest_location_from_timestamp h msec = Inr t \<and>
    location_dict h t = Some x \<and> x \<in> set (location_history h) \<and> msec_of x = t \<and>
    nearest_location h msec = Inr (x, d) \<and> py_int_of_float d = \<bar>t - msec\<bar> div 1000"
proof -
  from LocationHistory_init_Inr [OF assms(1)]
  have ts: "timestamps h = map msec_of (location_history h)"
    and dict: "location_dict h = dict_of Map.empty (location_history h)" by auto
  from ts assms(2) have "timestamps h \<noteq> []" by simp
  from nearest_location_from_timestamp_Inr [OF this, of msec] obtain t where
    t: "nearest_location_from_timestamp h msec = Inr t" "t \<in> set (timestamps h)" by blast
  from t(2) ts have "t \<in> msec_of ` set (location_history h)" by simp
  from dict_of_member [OF this, of Map.empty] dict obtain x where
    x: "x \<in> set (location_history h)" "location_dict h t = Some x" "msec_of x = t" by auto
  from LocationHistory_init_usable_records [OF assms(1)] x(1) have ux: "usable x" by blast
  from usable_int [OF ux] x(3) have it: "int_timestampMs x = Inr t" by simp
  from usable_range [OF ux] x(3)
  have r: "- 62135596800000 \<le> t" "t \<le> 253402300799999"
    by (simp_all add: datetime_min_msec_def datetime_max_msec_def)
  from assms(3) have m: "- 62135683200000 \<le> msec" "msec \<le> 253402387199999"
    by (simp_all add: photo_date_msec_def datetime_min_msec_def datetime_max_msec_def)
  from r m have "\<bar>t - msec\<bar> < 8796093022208000" by linarith
  then have "\<bar>t - msec\<bar> < 1000 * 2 ^ 43" by simp
  from py_truediv_1000 [OF _ this] obtain d where
    d: "py_truediv \<bar>t - msec\<bar> 1000 = Inr d" "py_int_of_float d = \<bar>t - msec\<bar> div 1000" by auto
  have "nearest_location h msec = Inr (x, d)"
    by (simp add: nearest_location_def t(1) x(2) it d(1))
  with t(1) x d(2) show ?thesis by blast
qed

lemma init_index_of:
  "\<forall>r\<in>set rs. usable r \<Longrightarrow> py_sorted (\<lambda>x. the (timestampMs x)) (map loaded rs) = Inr lh \<Longrightarrow>
     LocationHistory_init (Some rs) = Inr (index_of lh)"
  by (simp add: LocationHistory_init_usable index_of_def)

lemma dict_of_last:
  "filter (\<lambda>x. msec_of x = t) xs \<noteq> [] \<Longrightarrow>
     dict_of d xs t = Some (last (filter (\<lambda>x. msec_of x = t) xs))"
proof (induction xs rule: rev_induct)
  case Nil
  then show ?case by simp
next
  case (snoc y ys)
  show ?case
  proof (cases "msec_of y = t")
    case True
    then show ?thesis by simp
  next
    case False
    with snoc show ?thesis by simp
  qed
qed

section \<open>The order of the sorted list\<close>

text \<open>
  The sorted list does not depend on the order of the file when no two different records
  have the same key. When the timestamps of the file are integers, the sort is the numeric
  one: the timestamps are in order, the nearest timestamp is at the least distance, and
  the dictionary has the last record of the file under a timestamp that several share.
\<close>

lemma the_JInt_inj: "is_JInt a \<Longrightarrow> is_JInt b \<Longrightarrow> the_JInt a = the_JInt b \<Longrightarrow> a = b"
  by (cases a; cases b) simp_all

lemma the_JStr_inj: "\<not> is_JInt a \<Longrightarrow> \<not> is_JInt b \<Longrightarrow> the_JStr a = the_JStr b \<Longrightarrow> a = b"
  by (cases a; cases b) simp_all

lemma py_sorted_perm:
  assumes "mset ys = mset xs" and "\<forall>x\<in>set xs. \<forall>y\<in>set xs. key x = key y \<longrightarrow> x = y"
  shows "py_sorted key ys = py_sorted key xs"
proof -
  have s: "set ys = set xs" using assms(1) by (rule mset_eq_setD)
  have la: "list_all P ys = list_all P xs" for P by (simp add: list_all_iff s)
  show ?thesis
  proof (cases "list_all (\<lambda>x. is_JInt (key x)) xs")
    case True
    then have "inj_on (\<lambda>x. the_JInt (key x)) (set ys)"
      using assms(2) s by (auto simp: inj_on_def list_all_iff dest!: the_JInt_inj [rotated 2])
    from sort_key_eq_sort_key [OF assms(1) this] True show ?thesis
      by (simp add: py_sorted_def la)
  next
    case False
    show ?thesis
    proof (cases "list_all (\<lambda>x. \<not> is_JInt (key x)) xs")
      case s2: True
      then have "inj_on (\<lambda>x. the_JStr (key x)) (set ys)"
        using assms(2) s by (auto simp: inj_on_def list_all_iff dest!: the_JStr_inj [rotated 2])
      from sort_key_eq_sort_key [OF assms(1) this] False s2 show ?thesis
        by (simp add: py_sorted_def la)
    next
      case s2: False
      with False show ?thesis by (simp add: py_sorted_def la)
    qed
  qed
qed

lemma timestamps_sorted_if_JInt:
  assumes "LocationHistory_init (Some rs) = Inr h"
    and "\<forall>r\<in>set rs. is_JInt (the (timestampMs r))"
  shows "sorted (timestamps h)"
proof -
  from LocationHistory_init_Inr [OF assms(1)] have u: "\<forall>r\<in>set rs. usable r"
    and s: "py_sorted (\<lambda>x. the (timestampMs x)) (map loaded rs) = Inr (location_history h)"
    and ts: "timestamps h = map msec_of (location_history h)"
    by auto
  let ?f = "\<lambda>x :: location. the_JInt (the (timestampMs x))"
  have a: "list_all (\<lambda>x. is_JInt (the (timestampMs x))) (map loaded rs)"
    using assms(2) by (simp add: list_all_iff)
  with s have lh: "location_history h = sort_key ?f (map loaded rs)"
    by (simp add: py_sorted_def)
  have "msec_of x = ?f x" if "x \<in> set (location_history h)" for x
  proof -
    from that lh obtain r where r: "r \<in> set rs" "x = loaded r" by auto
    with assms(2) have j: "is_JInt (the (timestampMs r))" by blast
    from u r usable_key obtain v where v: "timestampMs r = Some v" by blast
    with j obtain n where "v = JInt n" by (cases v) auto
    with v r show ?thesis by (simp add: msec_of_def int_timestampMs_def get_timestampMs_def)
  qed
  then have "map msec_of (location_history h) = map ?f (location_history h)" by simp
  also have "\<dots> = map ?f (sort_key ?f (map loaded rs))" by (simp add: lh)
  finally show ?thesis using ts by (simp add: sorted_sort_key)
qed

lemma nearest_location_minimal_if_sorted:
  assumes "LocationHistory_init data = Inr h" and "location_history h \<noteq> []"
    and "photo_date_msec msec" and "sorted (timestamps h)"
  shows "\<exists>x d. nearest_location h msec = Inr (x, d) \<and> x \<in> set (location_history h) \<and>
    (\<forall>y\<in>set (location_history h). \<bar>msec - msec_of x\<bar> \<le> \<bar>msec - msec_of y\<bar>)"
proof -
  from LocationHistory_init_Inr [OF assms(1)]
  have ts: "timestamps h = map msec_of (location_history h)" by auto
  with assms(2) have ne: "timestamps h \<noteq> []" by simp
  from nearest_location_from_timestamp_sorted [OF ne assms(4), of msec] obtain t where
    t: "nearest_location_from_timestamp h msec = Inr t"
      "\<forall>u\<in>set (timestamps h). \<bar>msec - t\<bar> \<le> \<bar>msec - u\<bar>" by blast
  from nearest_location_constructed [OF assms(1-3)] t(1) obtain x d where
    x: "x \<in> set (location_history h)" "msec_of x = t" "nearest_location h msec = Inr (x, d)"
    by auto
  from t(2) ts x(2) have "\<forall>y\<in>set (location_history h). \<bar>msec - msec_of x\<bar> \<le> \<bar>msec - msec_of y\<bar>"
    by simp
  with x show ?thesis by blast
qed

lemma duplicate_last_wins_if_JInt:
  assumes "LocationHistory_init (Some rs) = Inr h"
    and "\<forall>r\<in>set rs. is_JInt (the (timestampMs r))"
    and "photo_date_msec t" and "filter (\<lambda>r. msec_of r = t) rs \<noteq> []"
  shows "\<exists>d. nearest_location h t = Inr (loaded (last (filter (\<lambda>r. msec_of r = t) rs)), d)"
proof -
  from LocationHistory_init_Inr [OF assms(1)] have u: "\<forall>r\<in>set rs. usable r"
    and s: "py_sorted (\<lambda>x. the (timestampMs x)) (map loaded rs) = Inr (location_history h)"
    and ts: "timestamps h = map msec_of (location_history h)"
    and dict: "location_dict h = dict_of Map.empty (location_history h)"
    by auto
  let ?f = "\<lambda>x :: location. the_JInt (the (timestampMs x))"
  let ?lh = "location_history h"
  have "list_all (\<lambda>x. is_JInt (the (timestampMs x))) (map loaded rs)"
    using assms(2) by (simp add: list_all_iff)
  with s have lh: "?lh = sort_key ?f (map loaded rs)" by (simp add: py_sorted_def)
  have key: "msec_of (loaded r) = ?f (loaded r)" if "r \<in> set rs" for r
  proof -
    from that assms(2) have j: "is_JInt (the (timestampMs r))" by blast
    from u that usable_key obtain v where v: "timestampMs r = Some v" by blast
    with j obtain n where "v = JInt n" by (cases v) auto
    with v show ?thesis by (simp add: msec_of_def int_timestampMs_def get_timestampMs_def)
  qed
  have "filter (\<lambda>x. msec_of x = t) ?lh = filter (\<lambda>x. ?f x = t) ?lh"
    using key lh by (intro filter_cong) auto
  also have "\<dots> = filter (\<lambda>x. ?f x = t) (map loaded rs)"
    unfolding lh by (rule sort_key_stable)
  also have "\<dots> = filter (\<lambda>x. msec_of x = t) (map loaded rs)"
    using key by (intro filter_cong) auto
  also have "\<dots> = map loaded (filter (\<lambda>r. msec_of r = t) rs)"
    by (simp add: filter_map comp_def)
  finally have fl: "filter (\<lambda>x. msec_of x = t) ?lh = map loaded (filter (\<lambda>r. msec_of r = t) rs)" .
  with assms(4) have fne: "filter (\<lambda>x. msec_of x = t) ?lh \<noteq> []" by simp
  then have lne: "?lh \<noteq> []" by auto
  from dict_of_last [OF fne, of Map.empty] dict fl assms(4)
  have d: "location_dict h t = Some (loaded (last (filter (\<lambda>r. msec_of r = t) rs)))"
    by (simp add: last_map)
  have srt: "sorted (timestamps h)" using timestamps_sorted_if_JInt [OF assms(1,2)] .
  from ts lne have ne: "timestamps h \<noteq> []" by simp
  from nearest_location_from_timestamp_sorted [OF ne srt, of t] obtain t' where
    t': "nearest_location_from_timestamp h t = Inr t'"
      "\<forall>u\<in>set (timestamps h). \<bar>t - t'\<bar> \<le> \<bar>t - u\<bar>" by blast
  from fne obtain x where "x \<in> set ?lh" "msec_of x = t"
    by (metis (mono_tags, lifting) filter_False)
  then have "t \<in> set (timestamps h)" using ts by auto
  with t'(2) have "\<bar>t - t'\<bar> \<le> \<bar>t - t\<bar>" by blast
  then have "t' = t" by simp
  from nearest_location_constructed [OF assms(1) lne assms(3)] t'(1) this d
  show ?thesis by auto
qed

section \<open>The example histories evaluated\<close>

lemmas parse_defs = py_int_str_def py_strip_def py_isspace_def unsigned_literal_def digit_val_def

lemmas loc_defs = loc_1000000_def loc_2000000_def loc_5000000_def loc_missing_def
  loc_2001_a_def loc_2001_a2_def loc_2001_b_def loc_2001_c_def

lemma usable_eval:
  "usable \<lparr>timestampMs = Some v, latitudeE7 = la, longitudeE7 = lo\<rparr> =
     (case py_int v of
        Inl e \<Rightarrow> False
      | Inr t \<Rightarrow>
          datetime_min_msec \<le> t \<and> t \<le> datetime_max_msec \<and>
          \<not> isl (coordinate la) \<and> \<not> isl (coordinate lo))"
  by (simp add: usable_def int_timestampMs_def get_timestampMs_def split: sum.splits)

lemma msec_of_eval:
  "msec_of \<lparr>timestampMs = Some v, latitudeE7 = la, longitudeE7 = lo\<rparr> =
     (case py_int v of Inl e \<Rightarrow> 0 | Inr t \<Rightarrow> t)"
  by (simp add: msec_of_def int_timestampMs_def get_timestampMs_def)

lemma msec_of_scenario [simp]:
  "msec_of loc_1000000 = 1000000" "msec_of loc_2000000 = 2000000" "msec_of loc_5000000 = 5000000"
  by (simp_all add: loc_1000000_def loc_2000000_def loc_5000000_def msec_of_eval parse_defs)

lemma msec_of_2001 [simp]:
  "msec_of loc_2001_a = 999999999999" "msec_of loc_2001_a2 = 999999999999"
  "msec_of loc_2001_b = 1000000000000" "msec_of loc_2001_c = 1000000000005"
  by (simp_all add: loc_defs msec_of_eval parse_defs)

lemma msec_of_no_coords [simp]: "msec_of loc_no_coords = 1990000"
  by (simp add: loc_no_coords_def msec_of_eval parse_defs)

lemma usable_locs [simp]:
  "usable loc_1000000" "usable loc_2000000" "usable loc_5000000"
  "usable loc_2001_a" "usable loc_2001_a2" "usable loc_2001_b" "usable loc_2001_c"
  by (simp_all add: loc_defs usable_eval parse_defs datetime_min_msec_def datetime_max_msec_def
      coordinate_small)

lemma usable_no_coords [simp]: "usable loc_no_coords"
  by (simp add: loc_no_coords_def usable_eval parse_defs datetime_min_msec_def
      datetime_max_msec_def)

lemma usable_scenario: "\<forall>r\<in>set history_scenario. usable r"
  by (simp add: history_scenario_def loc_1000000_def loc_2000000_def loc_5000000_def
      usable_eval parse_defs datetime_min_msec_def datetime_max_msec_def coordinate_small)

lemma photo_date_msec_scenario [simp]:
  "photo_date_msec 1900000" "photo_date_msec 1900001" "photo_date_msec 1992000"
  by (simp_all add: photo_date_msec_def datetime_min_msec_def datetime_max_msec_def)

lemma photo_date_msec_2001 [simp]: "photo_date_msec 999999999999"
  by (simp add: photo_date_msec_def datetime_min_msec_def datetime_max_msec_def)

lemma sorted_scenario:
  "py_sorted (\<lambda>x. the (timestampMs x)) (map loaded history_scenario) =
     Inr [loaded loc_1000000, loaded loc_2000000, loaded loc_5000000]"
  by (simp add: history_scenario_def loc_1000000_def loc_2000000_def loc_5000000_def py_sorted_def)

lemma init_scenario: "LocationHistory_init (Some history_scenario) = Inr index_scenario"
  by (simp add: LocationHistory_init_usable [OF usable_scenario sorted_scenario] index_scenario_def)

lemma nearest_scenario: "nearest_location_from_timestamp index_scenario 1900000 = Inr 2000000"
  by (simp add: nearest_location_from_timestamp_def index_scenario_def bisect_left_def
      bisect_left_loop.simps py_slice_def)

lemma nearest_scenario_1900001:
  "nearest_location_from_timestamp index_scenario 1900001 = Inr 2000000"
  by (simp add: nearest_location_from_timestamp_def index_scenario_def bisect_left_def
      bisect_left_loop.simps py_slice_def)

lemma dict_scenario: "location_dict index_scenario 2000000 = Some (loaded loc_2000000)"
  by (simp add: index_scenario_def)

lemma init_2001_ab:
  "LocationHistory_init (Some [loc_2001_a, loc_2001_b]) =
     Inr (index_of [loaded loc_2001_b, loaded loc_2001_a])"
  by (rule init_index_of, simp, simp add: py_sorted_def loc_defs)

lemma init_2001_abc:
  "LocationHistory_init (Some [loc_2001_a, loc_2001_b, loc_2001_c]) =
     Inr (index_of [loaded loc_2001_b, loaded loc_2001_c, loaded loc_2001_a])"
  by (rule init_index_of, simp, simp add: py_sorted_def loc_defs)

lemma nearest_2001_abc:
  "nearest_location_from_timestamp
     (index_of [loaded loc_2001_b, loaded loc_2001_c, loaded loc_2001_a]) 999999999999 =
   Inr 1000000000000"
  by (simp add: nearest_location_from_timestamp_def index_of_def bisect_left_def
      bisect_left_loop.simps py_slice_def)

lemma init_2001_bcaa:
  "LocationHistory_init (Some [loc_2001_b, loc_2001_c, loc_2001_a, loc_2001_a2]) =
     Inr (index_of [loaded loc_2001_b, loaded loc_2001_c, loaded loc_2001_a, loaded loc_2001_a2])"
  by (rule init_index_of, simp, simp add: py_sorted_def loc_defs)

lemma nearest_2001_bcaa:
  "nearest_location_from_timestamp
     (index_of [loaded loc_2001_b, loaded loc_2001_c, loaded loc_2001_a, loaded loc_2001_a2])
     999999999999 = Inr 1000000000000"
  by (simp add: nearest_location_from_timestamp_def index_of_def bisect_left_def
      bisect_left_loop.simps py_slice_def)

lemma init_2001_aa2:
  "LocationHistory_init (Some [loc_2001_a, loc_2001_a2]) =
     Inr (index_of [loaded loc_2001_a, loaded loc_2001_a2])"
  by (rule init_index_of, simp, simp add: py_sorted_def loc_defs)

lemma init_2001_a2a:
  "LocationHistory_init (Some [loc_2001_a2, loc_2001_a]) =
     Inr (index_of [loaded loc_2001_a2, loaded loc_2001_a])"
  by (rule init_index_of, simp, simp add: py_sorted_def loc_defs)

lemma load_location_overflow: "load_location loc_overflow = Inl OverflowError"
  by (simp add: load_location_def loc_overflow_def int_timestampMs_def get_timestampMs_def
      parse_defs msec_to_datetime_def datetime_min_msec_def datetime_max_msec_def
      coordinate_big)

lemma init_overflow:
  "LocationHistory_init (Some [loc_overflow, loc_missing]) = Inl OverflowError"
  by (simp add: LocationHistory_init_def load_location_history_def load_try_def
      load_location_overflow)

lemma init_no_coords:
  "LocationHistory_init (Some [loc_1000000, loc_no_coords, loc_2000000]) =
     Inr (index_of [loaded loc_1000000, loaded loc_no_coords, loaded loc_2000000])"
  by (rule init_index_of, simp, simp add: py_sorted_def loc_defs loc_no_coords_def)

lemma nearest_no_coords:
  "nearest_location_from_timestamp
     (index_of [loaded loc_1000000, loaded loc_no_coords, loaded loc_2000000]) 1992000 =
   Inr 1990000"
  by (simp add: nearest_location_from_timestamp_def index_of_def bisect_left_def
      bisect_left_loop.simps py_slice_def)

section \<open>The claims\<close>

text \<open>
  C1. The property: on a non-empty index, the record that \<^verbatim>\<open>nearest_location\<close> returns
  for a query is at the least distance from the query among all the records. The code does
  not have it. From the file with the records at \<open>999999999999\<close>, \<open>1000000000000\<close> and
  \<open>1000000000005\<close> milliseconds, the query \<open>999999999999\<close> returns the record at
  \<open>1000000000000\<close>, at distance 1, where the first record of the file is at distance 0.
  The sort of line 77 has the key \<^verbatim>\<open>x["timestampMs"]\<close>, a string, where the rest of the
  class reads \<^verbatim>\<open>int(x["timestampMs"])\<close>: the strings are in order, the integers that
  \<^verbatim>\<open>bisect_left\<close> searches are not. On timestamps in numeric order the property holds
  (\<open>nearest_location_minimal_if_sorted\<close>), and the timestamp returned is always the first
  of the nearest ones in the window (\<open>nearest_first_in_window\<close>).
\<close>

theorem nearest_not_minimal:
  "LocationHistory_init (Some [loc_2001_a, loc_2001_b, loc_2001_c]) =
     Inr (index_of [loaded loc_2001_b, loaded loc_2001_c, loaded loc_2001_a]) \<and>
   map_sum id fst (nearest_location
     (index_of [loaded loc_2001_b, loaded loc_2001_c, loaded loc_2001_a]) 999999999999) =
     Inr (loaded loc_2001_b) \<and>
   \<bar>999999999999 - msec_of (loaded loc_2001_b)\<bar> = 1 \<and>
   \<bar>999999999999 - msec_of (loaded loc_2001_a)\<bar> = 0"
proof -
  let ?h = "index_of [loaded loc_2001_b, loaded loc_2001_c, loaded loc_2001_a]"
  have ne: "location_history ?h \<noteq> []" by (simp add: index_of_def)
  have d: "location_dict ?h 1000000000000 = Some (loaded loc_2001_b)"
    by (simp add: index_of_def)
  from nearest_location_constructed [OF init_2001_abc ne photo_date_msec_2001]
    nearest_2001_abc d
  obtain dl where "nearest_location ?h 999999999999 = Inr (loaded loc_2001_b, dl)" by auto
  then show ?thesis using init_2001_abc by simp
qed

text \<open>
  C2. The property: after construction the records, and the list of their timestamps, are
  in non-decreasing numeric order. The code does not have it. From the file with the
  records at \<open>999999999999\<close> and \<open>1000000000000\<close> milliseconds, in this order, the
  list of timestamps is \<open>[1000000000000, 999999999999]\<close>: the sort of line 77 compares
  the strings, and a string that begins with \<open>1\<close> comes before one that begins with
  \<open>9\<close>. With integer timestamps in the file the list is sorted
  (\<open>timestamps_sorted_if_JInt\<close>).
\<close>

theorem timestamps_not_sorted:
  "LocationHistory_init (Some [loc_2001_a, loc_2001_b]) =
     Inr (index_of [loaded loc_2001_b, loaded loc_2001_a]) \<and>
   timestamps (index_of [loaded loc_2001_b, loaded loc_2001_a]) = [1000000000000, 999999999999] \<and>
   \<not> sorted (timestamps (index_of [loaded loc_2001_b, loaded loc_2001_a]))"
  using init_2001_ab by (simp add: index_of_def)

text \<open>
  C3. On a non-empty index and for the date of a photo, \<^verbatim>\<open>add_location_to_photo\<close>
  returns a match exactly when the delta in whole seconds is below the threshold. With
  \<open>d\<close> the whole seconds of the delta of the nearest record: the threshold \<open>d\<close> (a
  delta of exactly the threshold) gives no match, the threshold \<open>d + 1\<close> gives the
  match, the threshold \<open>d - 1\<close> gives no match. No match is the value \<open>Inr None\<close>, the
  \<^verbatim>\<open>return 0\<close> of the source, and not an exception.
\<close>

theorem match_iff_delta_below_threshold:
  assumes "LocationHistory_init data = Inr h" and "location_history h \<noteq> []"
    and "photo_date_msec msec"
  shows "\<exists>x d. nearest_location h msec = Inr (x, d) \<and>
    (\<forall>T. add_location_to_photo h msec T =
       Inr (if py_int_of_float d < T then Some (x, py_int_of_float d) else None)) \<and>
    add_location_to_photo h msec (py_int_of_float d) = Inr None \<and>
    add_location_to_photo h msec (py_int_of_float d + 1) = Inr (Some (x, py_int_of_float d)) \<and>
    add_location_to_photo h msec (py_int_of_float d - 1) = Inr None"
proof -
  from nearest_location_constructed [OF assms] obtain x d where
    n: "nearest_location h msec = Inr (x, d)" by blast
  then have "add_location_to_photo h msec T =
       Inr (if py_int_of_float d < T then Some (x, py_int_of_float d) else None)" for T
    by (simp add: add_location_to_photo_def)
  with n show ?thesis by simp
qed

theorem match_iff_delta_below_threshold_witness:
  "LocationHistory_init (Some history_scenario) = Inr index_scenario \<and>
   location_history index_scenario \<noteq> [] \<and> photo_date_msec 1900000 \<and>
   add_location_to_photo index_scenario 1900000 120 = Inr (Some (loaded loc_2000000, 100)) \<and>
   add_location_to_photo index_scenario 1900000 101 = Inr (Some (loaded loc_2000000, 100)) \<and>
   add_location_to_photo index_scenario 1900000 100 = Inr None \<and>
   add_location_to_photo index_scenario 1900000 90 = Inr None"
proof -
  have ne: "location_history index_scenario \<noteq> []" by (simp add: index_scenario_def)
  have q: "photo_date_msec 1900000"
    by (simp add: photo_date_msec_def datetime_min_msec_def datetime_max_msec_def)
  from nearest_location_constructed [OF init_scenario ne q] nearest_scenario dict_scenario
  obtain d' where n': "nearest_location index_scenario 1900000 = Inr (loaded loc_2000000, d')"
    "py_int_of_float d' = 100" by auto
  from match_iff_delta_below_threshold [OF init_scenario ne q] n'
  have "\<forall>T. add_location_to_photo index_scenario 1900000 T =
       Inr (if 100 < T then Some (loaded loc_2000000, 100) else None)"
    by auto
  then show ?thesis using init_scenario ne q by simp
qed

text \<open>
  C4. When a record has no \<^verbatim>\<open>"timestampMs"\<close>, \<^verbatim>\<open>__init__\<close> raises and there is no
  \<^verbatim>\<open>LocationHistory\<close>. The exception is the \<^verbatim>\<open>ValueError\<close> of line 79, made of the
  \<^verbatim>\<open>KeyError\<close> of the record, whenever the loop reaches that record, that is when
  the body of the loop goes through for the records before the first one without the
  key. Otherwise the loop stops earlier, at a record whose timestamp or whose coordinates
  raise, and the exception is the one of that record; there is no \<^verbatim>\<open>LocationHistory\<close>
  then either. So the file with \<open>loc_overflow\<close>, whose latitude is \<open>10\<^sup>4\<^sup>0\<^sup>0\<close>,
  before the record without the key gives the \<^verbatim>\<open>OverflowError\<close> of the division of
  line 68.
\<close>

theorem missing_timestamp_fails:
  assumes "\<exists>r\<in>set rs. timestampMs r = None"
  shows "(\<exists>e. LocationHistory_init (Some rs) = Inl e) \<and>
    (list_all usable (takeWhile (\<lambda>r. timestampMs r \<noteq> None) rs) \<longrightarrow>
      LocationHistory_init (Some rs) = Inl (ValueError history_not_found))"
proof -
  from assms have "\<exists>r\<in>set rs. \<not> usable r"
    using usable_key by blast
  from load_location_history_unusable [OF this]
  have a: "\<exists>e. LocationHistory_init (Some rs) = Inl e"
    by (auto simp: LocationHistory_init_def)
  have b: "LocationHistory_init (Some rs) = Inl (ValueError history_not_found)"
    if u: "list_all usable (takeWhile (\<lambda>r. timestampMs r \<noteq> None) rs)"
  proof -
    let ?pre = "takeWhile (\<lambda>r. timestampMs r \<noteq> None) rs"
    let ?post = "dropWhile (\<lambda>r. timestampMs r \<noteq> None) rs"
    from assms have "?post \<noteq> []" by auto
    then obtain r post where p: "?post = r # post" by (cases ?post) auto
    then have r: "timestampMs r = None"
      by (metis (mono_tags, lifting) hd_dropWhile list.sel(1) list.distinct(1))
    have "rs = ?pre @ r # post" using p by (metis takeWhile_dropWhile_id)
    moreover have "load_locations (?pre @ r # post) = Inl KeyError"
      using u r by (intro load_locations_first_missing) (auto simp: list_all_iff)
    ultimately have "load_locations rs = Inl KeyError" by simp
    then show ?thesis
      by (simp add: LocationHistory_init_def load_location_history_def load_try_def)
  qed
  from a b show ?thesis by blast
qed

theorem missing_timestamp_fails_witness:
  "loc_missing \<in> set history_missing \<and> timestampMs loc_missing = None \<and>
   LocationHistory_init (Some history_missing) = Inl (ValueError history_not_found) \<and>
   LocationHistory_init (Some [loc_overflow, loc_missing]) = Inl OverflowError"
proof -
  have m: "timestampMs loc_missing = None" by (simp add: loc_missing_def)
  have i: "loc_missing \<in> set history_missing" by (simp add: history_missing_def)
  have k: "timestampMs loc_1000000 \<noteq> None" by (simp add: loc_1000000_def)
  have "takeWhile (\<lambda>r. timestampMs r \<noteq> None) history_missing = [loc_1000000]"
    using m k by (simp add: history_missing_def)
  then have u: "list_all usable (takeWhile (\<lambda>r. timestampMs r \<noteq> None) history_missing)"
    by simp
  from m i have "\<exists>r\<in>set history_missing. timestampMs r = None" by blast
  from missing_timestamp_fails [OF this] u m i init_overflow show ?thesis by blast
qed

text \<open>
  C5. On the index of an empty history (no record), \<^verbatim>\<open>nearest_location\<close> raises, and so
  does the match in \<^verbatim>\<open>add_location_to_photo\<close>, which lets the exception through: the
  photo is not reported as one without a match. The exception is the \<^verbatim>\<open>ValueError\<close> of
  \<^verbatim>\<open>min()\<close> on the empty slice of timestamps.
\<close>

theorem empty_index_fails:
  assumes "LocationHistory_init data = Inr h" and "location_history h = []"
  shows "nearest_location h msec = Inl (ValueError min_empty) \<and>
    add_location_to_photo h msec delta = Inl (ValueError min_empty)"
proof -
  from LocationHistory_init_Inr [OF assms(1)] assms(2) have "timestamps h = []" by auto
  then show ?thesis
    by (simp add: nearest_location_def add_location_to_photo_def nearest_empty)
qed

theorem empty_index_fails_witness:
  "LocationHistory_init (Some []) =
     Inr \<lparr>location_history = [], timestamps = [], location_dict = Map.empty\<rparr> \<and>
   nearest_location \<lparr>location_history = [], timestamps = [], location_dict = Map.empty\<rparr> 1900000
     = Inl (ValueError min_empty) \<and>
   add_location_to_photo \<lparr>location_history = [], timestamps = [], location_dict = Map.empty\<rparr>
     1900000 60 = Inl (ValueError min_empty)"
proof -
  have i: "LocationHistory_init (Some []) =
     Inr \<lparr>location_history = [], timestamps = [], location_dict = Map.empty\<rparr>"
    using LocationHistory_init_usable [of "[]" "[]"] by (simp add: py_sorted_def)
  from empty_index_fails [OF i, of 1900000 60] i show ?thesis by simp
qed

text \<open>
  C6. On a non-empty index and for the date of a photo, the whole seconds of the delta
  that \<^verbatim>\<open>nearest_location\<close> returns are \<open>\<bar>t - msec\<bar> div 1000\<close>, where \<open>t\<close> is the
  timestamp of the record returned: the distance in milliseconds divided by 1000 and
  truncated, not rounded. This is the number that \<^verbatim>\<open>add_location_to_photo\<close> compares
  with the threshold and reports with the match.
\<close>

theorem delta_is_truncated_quotient:
  assumes "LocationHistory_init data = Inr h" and "location_history h \<noteq> []"
    and "photo_date_msec msec"
  shows "\<exists>x d. nearest_location h msec = Inr (x, d) \<and>
    py_int_of_float d = \<bar>msec_of x - msec\<bar> div 1000 \<and>
    (\<forall>T. \<bar>msec_of x - msec\<bar> div 1000 < T \<longrightarrow>
       add_location_to_photo h msec T = Inr (Some (x, \<bar>msec_of x - msec\<bar> div 1000)))"
proof -
  from nearest_location_constructed [OF assms] obtain x d where
    n: "nearest_location h msec = Inr (x, d)"
      "py_int_of_float d = \<bar>msec_of x - msec\<bar> div 1000" by blast
  then show ?thesis by (simp add: add_location_to_photo_def)
qed

theorem delta_is_truncated_quotient_witness:
  "LocationHistory_init (Some history_scenario) = Inr index_scenario \<and>
   location_history index_scenario \<noteq> [] \<and> photo_date_msec 1900001 \<and>
   map_sum id (\<lambda>(x, d). (x, py_int_of_float d)) (nearest_location index_scenario 1900001) =
     Inr (loaded loc_2000000, 99) \<and>
   \<bar>msec_of (loaded loc_2000000) - 1900001\<bar> = 99999 \<and>
   add_location_to_photo index_scenario 1900001 100 = Inr (Some (loaded loc_2000000, 99))"
proof -
  have ne: "location_history index_scenario \<noteq> []" by (simp add: index_scenario_def)
  have q: "photo_date_msec 1900001" by simp
  from nearest_location_constructed [OF init_scenario ne q] nearest_scenario_1900001
    dict_scenario
  obtain d' where n': "nearest_location index_scenario 1900001 = Inr (loaded loc_2000000, d')"
    by auto
  from delta_is_truncated_quotient [OF init_scenario ne q] n'
  have "py_int_of_float d' = 99"
    and "add_location_to_photo index_scenario 1900001 100 = Inr (Some (loaded loc_2000000, 99))"
    by auto
  with n' init_scenario ne show ?thesis by simp
qed

text \<open>
  C7. The property: a query at a timestamp that several records of the file share returns
  the last of them in the order of the file. The code does not have it. From the file with
  the records at \<open>1000000000000\<close> and \<open>1000000000005\<close> milliseconds and then
  \<open>loc_2001_a\<close> and \<open>loc_2001_a2\<close>, both at \<open>999999999999\<close>, the query
  \<open>999999999999\<close> returns the record at \<open>1000000000000\<close> and not \<open>loc_2001_a2\<close>. The
  dictionary does hold \<open>loc_2001_a2\<close> under \<open>999999999999\<close>; the search does not find
  that timestamp in a list that the sort of line 77 has put in the order of the strings
  (see C1 and C2). With integer timestamps in the file the property holds
  (\<open>duplicate_last_wins_if_JInt\<close>).
\<close>

theorem duplicate_query_misses:
  "LocationHistory_init (Some [loc_2001_b, loc_2001_c, loc_2001_a, loc_2001_a2]) =
     Inr (index_of [loaded loc_2001_b, loaded loc_2001_c, loaded loc_2001_a, loaded loc_2001_a2]) \<and>
   msec_of loc_2001_a = 999999999999 \<and> msec_of loc_2001_a2 = 999999999999 \<and>
   map_sum id fst (nearest_location
     (index_of [loaded loc_2001_b, loaded loc_2001_c, loaded loc_2001_a, loaded loc_2001_a2])
     999999999999) = Inr (loaded loc_2001_b) \<and>
   loaded loc_2001_b \<noteq> loaded loc_2001_a2"
proof -
  let ?h = "index_of [loaded loc_2001_b, loaded loc_2001_c, loaded loc_2001_a, loaded loc_2001_a2]"
  have ne: "location_history ?h \<noteq> []" by (simp add: index_of_def)
  have d: "location_dict ?h 1000000000000 = Some (loaded loc_2001_b)"
    by (simp add: index_of_def)
  from nearest_location_constructed [OF init_2001_bcaa ne photo_date_msec_2001]
    nearest_2001_bcaa d
  obtain dl where "nearest_location ?h 999999999999 = Inr (loaded loc_2001_b, dl)" by auto
  moreover have "loaded loc_2001_b \<noteq> loaded loc_2001_a2"
    by (simp add: loaded_def loc_defs raw_location.extend_def)
  ultimately show ?thesis using init_2001_bcaa by simp
qed

text \<open>
  C8. When any two records of the file with the same \<^verbatim>\<open>"timestampMs"\<close> are the same
  record (so when the timestamps are distinct), the file and every permutation of it give
  the same \<^verbatim>\<open>LocationHistory\<close>: the same sorted list of records and the same result of
  every query and every match.
\<close>

theorem permutation_same_index:
  assumes "LocationHistory_init (Some rs) = Inr h" and "mset rs' = mset rs"
    and "\<forall>x\<in>set rs. \<forall>y\<in>set rs. timestampMs x = timestampMs y \<longrightarrow> x = y"
  shows "\<exists>h'. LocationHistory_init (Some rs') = Inr h' \<and> h' = h \<and>
    location_history h' = location_history h \<and>
    (\<forall>msec. nearest_location h' msec = nearest_location h msec) \<and>
    (\<forall>msec T. add_location_to_photo h' msec T = add_location_to_photo h msec T)"
proof -
  from LocationHistory_init_Inr [OF assms(1)] have u: "\<forall>r\<in>set rs. usable r"
    and s: "py_sorted (\<lambda>x. the (timestampMs x)) (map loaded rs) = Inr (location_history h)"
    by auto
  have se: "set rs' = set rs" using assms(2) by (rule mset_eq_setD)
  with u have u': "\<forall>r\<in>set rs'. usable r" by simp
  have k: "\<forall>x\<in>set (map loaded rs). \<forall>y\<in>set (map loaded rs).
      the (timestampMs x) = the (timestampMs y) \<longrightarrow> x = y"
  proof (intro ballI impI)
    fix x y assume "x \<in> set (map loaded rs)" "y \<in> set (map loaded rs)"
      and eq: "the (timestampMs x) = the (timestampMs y)"
    then obtain r r' where r: "r \<in> set rs" "x = loaded r" "r' \<in> set rs" "y = loaded r'"
      by auto
    from u r usable_key have "timestampMs r \<noteq> None" "timestampMs r' \<noteq> None" by blast+
    with eq r have "timestampMs r = timestampMs r'" by auto
    with assms(3) r show "x = y" by blast
  qed
  have "mset (map loaded rs') = mset (map loaded rs)" using assms(2) by simp
  from py_sorted_perm [OF this k] s
  have s': "py_sorted (\<lambda>x. the (timestampMs x)) (map loaded rs') = Inr (location_history h)"
    by simp
  from LocationHistory_init_usable [OF u s] LocationHistory_init_usable [OF u' s'] assms(1)
  have "LocationHistory_init (Some rs') = Inr h" by simp
  then show ?thesis by simp
qed

theorem permutation_same_index_witness:
  "mset [loc_5000000, loc_1000000, loc_2000000] = mset history_scenario \<and>
   LocationHistory_init (Some history_scenario) = Inr index_scenario \<and>
   LocationHistory_init (Some [loc_5000000, loc_1000000, loc_2000000]) = Inr index_scenario"
proof -
  have m: "mset [loc_5000000, loc_1000000, loc_2000000] = mset history_scenario"
    by (simp add: history_scenario_def)
  have k: "\<forall>x\<in>set history_scenario. \<forall>y\<in>set history_scenario.
      timestampMs x = timestampMs y \<longrightarrow> x = y"
    by (simp add: history_scenario_def loc_defs)
  from permutation_same_index [OF init_scenario m k] m init_scenario show ?thesis by simp
qed

text \<open>
  Without the condition the order of the file is seen. The sort is stable and the
  dictionary keeps the last record under a key, so that of two records with the same
  timestamp the later one of the file comes later in the list and is the one a query
  returns: the files \<open>[loc_2001_a, loc_2001_a2]\<close> and \<open>[loc_2001_a2, loc_2001_a]\<close>
  give different lists, and the query at their timestamp returns \<open>loc_2001_a2\<close> from the
  first and \<open>loc_2001_a\<close> from the second.
\<close>

theorem permutation_changes_index:
  "mset [loc_2001_a2, loc_2001_a] = mset [loc_2001_a, loc_2001_a2] \<and>
   LocationHistory_init (Some [loc_2001_a, loc_2001_a2]) =
     Inr (index_of [loaded loc_2001_a, loaded loc_2001_a2]) \<and>
   LocationHistory_init (Some [loc_2001_a2, loc_2001_a]) =
     Inr (index_of [loaded loc_2001_a2, loaded loc_2001_a]) \<and>
   location_history (index_of [loaded loc_2001_a, loaded loc_2001_a2]) \<noteq>
     location_history (index_of [loaded loc_2001_a2, loaded loc_2001_a]) \<and>
   map_sum id fst (nearest_location (index_of [loaded loc_2001_a, loaded loc_2001_a2])
     999999999999) = Inr (loaded loc_2001_a2) \<and>
   map_sum id fst (nearest_location (index_of [loaded loc_2001_a2, loaded loc_2001_a])
     999999999999) = Inr (loaded loc_2001_a) \<and>
   loaded loc_2001_a \<noteq> loaded loc_2001_a2"
proof -
  let ?h = "index_of [loaded loc_2001_a, loaded loc_2001_a2]"
  let ?h' = "index_of [loaded loc_2001_a2, loaded loc_2001_a]"
  have neq: "loaded loc_2001_a \<noteq> loaded loc_2001_a2"
    by (simp add: loaded_def loc_defs raw_location.extend_def)
  have ne: "location_history ?h \<noteq> []" "location_history ?h' \<noteq> []"
    by (simp_all add: index_of_def)
  have n: "nearest_location_from_timestamp ?h 999999999999 = Inr 999999999999"
    "nearest_location_from_timestamp ?h' 999999999999 = Inr 999999999999"
    by (simp_all add: nearest_location_from_timestamp_def index_of_def bisect_left_def
        bisect_left_loop.simps py_slice_def)
  have d: "location_dict ?h 999999999999 = Some (loaded loc_2001_a2)"
    "location_dict ?h' 999999999999 = Some (loaded loc_2001_a)"
    by (simp_all add: index_of_def)
  from nearest_location_constructed [OF init_2001_aa2 ne(1) photo_date_msec_2001] n(1) d(1)
  obtain dl where a: "nearest_location ?h 999999999999 = Inr (loaded loc_2001_a2, dl)" by auto
  from nearest_location_constructed [OF init_2001_a2a ne(2) photo_date_msec_2001] n(2) d(2)
  obtain dl' where b: "nearest_location ?h' 999999999999 = Inr (loaded loc_2001_a, dl')" by auto
  have lh: "location_history ?h \<noteq> location_history ?h'"
    using neq by (simp add: index_of_def)
  have "mset [loc_2001_a2, loc_2001_a] = mset [loc_2001_a, loc_2001_a2]" by simp
  with a b lh neq init_2001_aa2 init_2001_a2a show ?thesis by simp
qed

text \<open>
  C9. A record without coordinates is not left out of the match. In the file with
  \<open>loc_no_coords\<close> at \<open>1990000\<close> milliseconds and a record with coordinates at
  \<open>2000000\<close>, the photo at \<open>1992000\<close> and the threshold of 60 seconds give the match
  with \<open>loc_no_coords\<close>, 2 seconds away, whose \<^verbatim>\<open>latitude\<close> and \<^verbatim>\<open>longitude\<close> are
  \<^verbatim>\<open>None\<close>, although the record with coordinates, 8 seconds away, is within the
  threshold too.
\<close>

theorem match_without_coordinates:
  "LocationHistory_init (Some [loc_1000000, loc_no_coords, loc_2000000]) =
     Inr (index_of [loaded loc_1000000, loaded loc_no_coords, loaded loc_2000000]) \<and>
   add_location_to_photo
     (index_of [loaded loc_1000000, loaded loc_no_coords, loaded loc_2000000]) 1992000 60 =
     Inr (Some (loaded loc_no_coords, 2)) \<and>
   latitude (loaded loc_no_coords) = None \<and> longitude (loaded loc_no_coords) = None \<and>
   latitude (loaded loc_2000000) \<noteq> None \<and> longitude (loaded loc_2000000) \<noteq> None \<and>
   \<bar>msec_of (loaded loc_2000000) - 1992000\<bar> div 1000 = 8"
proof -
  let ?h = "index_of [loaded loc_1000000, loaded loc_no_coords, loaded loc_2000000]"
  have ne: "location_history ?h \<noteq> []" by (simp add: index_of_def)
  have d: "location_dict ?h 1990000 = Some (loaded loc_no_coords)"
    by (simp add: index_of_def)
  from nearest_location_constructed [OF init_no_coords ne photo_date_msec_scenario(3)]
    nearest_no_coords d
  obtain dl where "nearest_location ?h 1992000 = Inr (loaded loc_no_coords, dl)"
    "py_int_of_float dl = 2" by auto
  then have "add_location_to_photo ?h 1992000 60 = Inr (Some (loaded loc_no_coords, 2))"
    by (simp add: add_location_to_photo_def)
  moreover have "latitude (loaded loc_no_coords) = None \<and> longitude (loaded loc_no_coords) = None"
    by (simp add: loaded_def loc_no_coords_def raw_location.extend_def)
  moreover have "latitude (loaded loc_2000000) \<noteq> None \<and> longitude (loaded loc_2000000) \<noteq> None"
    by (simp add: loaded_def loc_2000000_def raw_location.extend_def coordinate_small)
  ultimately show ?thesis using init_no_coords by simp
qed

text \<open>
  C10. The length of a \<^verbatim>\<open>LocationHistory\<close> is the number of records of the file, and so
  is the length of its list of timestamps: records with the same timestamp are all
  kept. The dictionary has one entry for each timestamp that occurs.
\<close>

theorem index_length:
  assumes "LocationHistory_init (Some rs) = Inr h"
  shows "LocationHistory_len h = length rs \<and> length (timestamps h) = length rs \<and>
    dom (location_dict h) = set (timestamps h)"
proof -
  from LocationHistory_init_Inr [OF assms]
  have t: "timestamps h = map msec_of (location_history h)"
    and d: "location_dict h = dict_of Map.empty (location_history h)" by auto
  show ?thesis
    by (simp add: LocationHistory_len_def LocationHistory_init_length [OF assms] t d dom_dict_of)
qed

theorem index_length_witness:
  "LocationHistory_init (Some [loc_2001_a, loc_2001_a2]) =
     Inr (index_of [loaded loc_2001_a, loaded loc_2001_a2]) \<and>
   LocationHistory_len (index_of [loaded loc_2001_a, loaded loc_2001_a2]) = 2 \<and>
   timestamps (index_of [loaded loc_2001_a, loaded loc_2001_a2]) =
     [999999999999, 999999999999] \<and>
   dom (location_dict (index_of [loaded loc_2001_a, loaded loc_2001_a2])) = {999999999999}"
proof -
  have t: "timestamps (index_of [loaded loc_2001_a, loaded loc_2001_a2]) =
     [999999999999, 999999999999]" by (simp add: index_of_def)
  from index_length [OF init_2001_aa2] t init_2001_aa2 show ?thesis by simp
qed

end
